theory Spec2Isabelle
  imports Main
begin

section \<open>The SSE client of \<^verbatim>\<open>packages/point-of-sale/hooks/sse-api.ts\<close>\<close>

text \<open>
  The development embeds the class \<^verbatim>\<open>RemoteSSESubscribable\<close> and the two functions
  around the module level holder \<^verbatim>\<open>statefulSubscribable\<close>.

  Conventions of the embedding:
  \<^item> a JavaScript string is a \<^typ>\<open>string\<close>, one \<^typ>\<open>char\<close> per code unit (code units
    below 256 only); an index is an \<^typ>\<open>int\<close>, since \<^verbatim>\<open>indexOf\<close> answers \<open>-1\<close>;
  \<^item> \<^verbatim>\<open>JSON.parse\<close> belongs to the runtime, not to the repository: it is a parameter
    \<open>parse\<close>, where \<open>None\<close> stands for the \<^verbatim>\<open>SyntaxError\<close> it throws;
  \<^item> a subscriber callback is known by a number, and calling it is recorded as an effect;
    callbacks only observe (they neither throw nor call back into the manager);
  \<^item> arrays are unbounded, so a loop that never reaches its exit is the value \<open>None\<close>: the
    function returns nothing. (An engine ends such a loop when \<^verbatim>\<open>push\<close> cannot grow the
    array any more, by a \<^verbatim>\<open>RangeError\<close>; the function returns nothing then either.)
  \<^item> \<^verbatim>\<open>console.log\<close> and \<^verbatim>\<open>console.error\<close> are left out.
\<close>

subsection \<open>The string operations of the runtime that the decoder uses\<close>

text \<open>\<^verbatim>\<open>String.prototype.indexOf(searchString, position)\<close>: the position is clamped
  into \<open>0 .. length\<close>, the answer is the first match at or after it, or \<open>-1\<close>.\<close>

primrec find_at :: "string \<Rightarrow> string \<Rightarrow> nat \<Rightarrow> int" where
  "find_at pat [] k = (if pat = [] then int k else - 1)"
| "find_at pat (c # cs) k =
     (if take (length pat) (c # cs) = pat then int k else find_at pat cs (Suc k))"

definition indexOf :: "string \<Rightarrow> string \<Rightarrow> int \<Rightarrow> int" where
  "indexOf s pat position =
     (let start = nat (min (max position 0) (int (length s)))
      in find_at pat (drop start s) start)"

text \<open>\<^verbatim>\<open>String.prototype.slice(start, end)\<close>: a negative bound counts from the end of
  the string, both bounds are clamped into \<open>0 .. length\<close>, and the result is empty when
  the first bound is not below the second.\<close>

definition slice :: "string \<Rightarrow> int \<Rightarrow> int \<Rightarrow> string" where
  "slice s startIndex endIndex =
     (let len = int (length s);
          k_from = (if startIndex < 0 then max (len + startIndex) 0 else min startIndex len);
          k_to = (if endIndex < 0 then max (len + endIndex) 0 else min endIndex len)
      in take (nat (max (k_to - k_from) 0)) (drop (nat k_from) s))"

text \<open>\<^verbatim>\<open>String.prototype.trim()\<close> removes white space and line terminators at both
  ends. Among the code units below 256 these are tab, line feed, vertical tab, form feed,
  carriage return, space and no-break space.\<close>

definition isWhiteSpace :: "char \<Rightarrow> bool" where
  "isWhiteSpace c =
     (c = CHR 0x09 \<or> c = CHR 0x0A \<or> c = CHR 0x0B \<or> c = CHR 0x0C \<or> c = CHR 0x0D \<or>
      c = CHR 0x20 \<or> c = CHR 0xA0)"

definition trim :: "string \<Rightarrow> string" where
  "trim s = rev (dropWhile isWhiteSpace (rev (dropWhile isWhiteSpace s)))"

subsection \<open>The marker scan of \<^verbatim>\<open>_extractFromSSE\<close>\<close>

text \<open>
  \<^verbatim>\<open>
  const dataLines: string[] = [];
  let startIndex = 0;
  while (true) {
      const dataIndex = ssePayload.indexOf('data: ', startIndex);
      if (dataIndex === -1) break;
      startIndex = dataIndex + 6;
      const endIndex = ssePayload.indexOf('\n', startIndex);
      dataLines.push(ssePayload.slice(startIndex, endIndex).trim());
      startIndex = endIndex;
  }
  \<close>
  The loop has no bound in the source, so it is a partial function: \<open>None\<close> means that
  the loop never reaches its \<^verbatim>\<open>break\<close>, and the scan returns no array. The loop stands
  before the \<^verbatim>\<open>try\<close> of \<^verbatim>\<open>_extractFromSSE\<close>, so the \<^verbatim>\<open>catch\<close> of that function has no part
  in it.
\<close>

partial_function (option) scanDataLines :: "string \<Rightarrow> int \<Rightarrow> string list \<Rightarrow> string list option"
  where
  "scanDataLines ssePayload startIndex dataLines =
     (let dataIndex = indexOf ssePayload ''data: '' startIndex in
      if dataIndex = - 1 then Some dataLines
      else
        let startIndex' = dataIndex + 6;
            endIndex = indexOf ssePayload [CHR 0x0A] startIndex'
        in scanDataLines ssePayload endIndex
             (dataLines @ [trim (slice ssePayload startIndex' endIndex)]))"

declare scanDataLines.simps [code]

subsection \<open>The client state and the manager\<close>

text \<open>
  \<^verbatim>\<open>SSEClient\<close> has the fields \<^verbatim>\<open>clientId?\<close>, \<^verbatim>\<open>connected\<close>, \<^verbatim>\<open>lastMessage?\<close>,
  \<^verbatim>\<open>error?\<close> and \<^verbatim>\<open>reconnect\<close>. An optional field is an \<^typ>\<open>'a option\<close>. The field
  \<^verbatim>\<open>reconnect\<close> holds one of two closures: the one of \<^verbatim>\<open>defaultSSEClient\<close>, which
  returns at once, or the one the constructor builds, which calls \<^verbatim>\<open>_disconnect\<close> and
  \<^verbatim>\<open>_connect\<close> of its manager.
\<close>

datatype reconnect_fn = ReconnectNoop | ReconnectManager

record 'j SSEClient =
  clientId :: "string option"
  connected :: bool
  lastMessage :: "'j option"
  error :: "string option"
  reconnect :: reconnect_fn

definition defaultSSEClient :: "'j SSEClient" where
  "defaultSSEClient =
     \<lparr>clientId = None, connected = False, lastMessage = None, error = None,
      reconnect = ReconnectNoop\<rparr>"

text \<open>The fields of \<^verbatim>\<open>RemoteSSESubscribable\<close>. The \<^verbatim>\<open>Set\<close> of subscribers is the list of
  its members in insertion order; a reader is known by the number \<^verbatim>\<open>getReader()\<close> gave
  it.\<close>

record 'j RemoteSSESubscribable =
  url :: string
  client :: "'j SSEClient"
  subscribers :: "nat list"
  reader :: "nat option"

definition constructor :: "string \<Rightarrow> 'j RemoteSSESubscribable" where
  "constructor u =
     \<lparr>url = u, client = defaultSSEClient\<lparr>reconnect := ReconnectManager\<rparr>,
      subscribers = [], reader = None\<rparr>"

definition initial :: "'j RemoteSSESubscribable \<Rightarrow> 'j SSEClient" where
  "initial m = defaultSSEClient"

definition current :: "'j RemoteSSESubscribable \<Rightarrow> 'j SSEClient" where
  "current m = defaultSSEClient"

definition set_add :: "nat \<Rightarrow> nat list \<Rightarrow> nat list" where
  "set_add s xs = (if s \<in> set xs then xs else xs @ [s])"

definition set_delete :: "nat \<Rightarrow> nat list \<Rightarrow> nat list" where
  "set_delete s xs = removeAll s xs"

subsection \<open>The manager in its environment\<close>

text \<open>
  \<^verbatim>\<open>_connect\<close> is an \<^verbatim>\<open>async\<close> function: it runs up to an \<^verbatim>\<open>await\<close>, and goes on when
  the awaited promise settles. Every call of \<^verbatim>\<open>_connect\<close> that issued its request is a
  task, which waits for \<^verbatim>\<open>fetch\<close>, or for \<^verbatim>\<open>read()\<close> of a reader, or has returned. A call
  of \<^verbatim>\<open>subscribe\<close> awaits the \<^verbatim>\<open>_connect\<close> it started; the task remembers that subscriber,
  and \<^verbatim>\<open>subscribe\<close> returns \<^verbatim>\<open>[unsubscribe, this.client]\<close> when the task has returned.

  What the program does to the outside is a list of effects: a request, the cancelling of
  a reader, a call of a subscriber with a state, and the return of \<^verbatim>\<open>subscribe\<close> to a
  subscriber with the client record it hands out.
\<close>

datatype stage = AwaitFetch | AwaitRead nat | Finished

type_synonym task = "stage \<times> nat option"

datatype 'j effect =
    Fetch string
  | Cancel nat
  | Call nat "'j SSEClient"
  | Returns nat "'j SSEClient"

record 'j world =
  mgr :: "'j RemoteSSESubscribable"
  tasks :: "task list"
  cancelled :: "nat list"
  readers :: nat
  trace :: "'j effect list"

definition new_world :: "string \<Rightarrow> 'j world" where
  "new_world u = \<lparr>mgr = constructor u, tasks = [], cancelled = [], readers = 0, trace = []\<rparr>"

text \<open>\<^verbatim>\<open>_notifySubscribers(state)\<close> calls every subscriber, in the order of the set.\<close>

definition notifySubscribers :: "'j SSEClient \<Rightarrow> 'j world \<Rightarrow> 'j world" where
  "notifySubscribers state w =
     w\<lparr>trace := trace w @ map (\<lambda>subscriber. Call subscriber state) (subscribers (mgr w))\<rparr>"

text \<open>\<^verbatim>\<open>dataLines.map(line => JSON.parse(line))\<close> throws at the first line that does not
  parse.\<close>

primrec mapParse :: "(string \<Rightarrow> 'j option) \<Rightarrow> string list \<Rightarrow> 'j list option" where
  "mapParse parse [] = Some []"
| "mapParse parse (line # rest) =
     (case parse line of
        None \<Rightarrow> None
      | Some obj \<Rightarrow> (case mapParse parse rest of None \<Rightarrow> None | Some objs \<Rightarrow> Some (obj # objs)))"

text \<open>\<^verbatim>\<open>_extractFromSSE\<close>: the scan, then the parse inside \<^verbatim>\<open>try\<close>; the \<^verbatim>\<open>catch\<close> notifies
  the subscribers of \<^verbatim>\<open>{...this.client, error: `Failed to parse JSON data: ${ssePayload}`}\<close>
  and returns the empty array.\<close>

definition extractFromSSE ::
  "(string \<Rightarrow> 'j option) \<Rightarrow> string \<Rightarrow> 'j world \<Rightarrow> ('j list \<times> 'j world) option" where
  "extractFromSSE parse ssePayload w =
     (case scanDataLines ssePayload 0 [] of
        None \<Rightarrow> None
      | Some dataLines \<Rightarrow>
          (case mapParse parse dataLines of
             Some objs \<Rightarrow> Some (objs, w)
           | None \<Rightarrow>
               Some ([], notifySubscribers
                  ((client (mgr w))\<lparr>error := Some (''Failed to parse JSON data: '' @ ssePayload)\<rparr>)
                  w)))"

text \<open>\<^verbatim>\<open>_onMessage\<close>: one notification per message, in the order of the array.\<close>

primrec forEachMessage :: "'j list \<Rightarrow> 'j world \<Rightarrow> 'j world" where
  "forEachMessage [] w = w"
| "forEachMessage (obj # objs) w =
     forEachMessage objs
       (notifySubscribers ((client (mgr w))\<lparr>connected := True, lastMessage := Some obj\<rparr>) w)"

definition onMessage :: "(string \<Rightarrow> 'j option) \<Rightarrow> string \<Rightarrow> 'j world \<Rightarrow> 'j world option" where
  "onMessage parse message w =
     (case extractFromSSE parse message w of
        None \<Rightarrow> None
      | Some (messageObjects, w1) \<Rightarrow> Some (forEachMessage messageObjects w1))"

text \<open>\<^verbatim>\<open>_disconnect\<close>: with a reader, cancel it and notify; without one, nothing.\<close>

definition disconnect :: "'j world \<Rightarrow> 'j world" where
  "disconnect w =
     (case reader (mgr w) of
        None \<Rightarrow> w
      | Some r \<Rightarrow>
          notifySubscribers ((client (mgr w))\<lparr>connected := False\<rparr>)
            (w\<lparr>cancelled := r # cancelled w, trace := trace w @ [Cancel r]\<rparr>))"

text \<open>The return of \<^verbatim>\<open>subscribe\<close> to the subscriber that awaited a \<^verbatim>\<open>_connect\<close>.\<close>

definition settle :: "nat option \<Rightarrow> 'j world \<Rightarrow> 'j world" where
  "settle awaiter w =
     (case awaiter of
        None \<Rightarrow> w
      | Some s \<Rightarrow> w\<lparr>trace := trace w @ [Returns s (client (mgr w))]\<rparr>)"

text \<open>\<^verbatim>\<open>_connect\<close> up to \<^verbatim>\<open>await fetch(this.url, {method: "GET"})\<close>: it returns at once
  when \<^verbatim>\<open>!this.url || this.url.length <= 1\<close>.\<close>

definition connect :: "nat option \<Rightarrow> 'j world \<Rightarrow> 'j world" where
  "connect awaiter w =
     (if url (mgr w) = [] \<or> length (url (mgr w)) \<le> 1 then settle awaiter w
      else w\<lparr>tasks := tasks w @ [(AwaitFetch, awaiter)],
             trace := trace w @ [Fetch (url (mgr w))]\<rparr>)"

text \<open>The \<^verbatim>\<open>catch\<close> and the \<^verbatim>\<open>finally\<close> block of \<^verbatim>\<open>_connect\<close>, and the return of task
  \<open>t\<close>. An error is known by its \<^verbatim>\<open>message\<close>.\<close>

definition catchBlock :: "string \<Rightarrow> 'j world \<Rightarrow> 'j world" where
  "catchBlock message w =
     notifySubscribers ((client (mgr w))\<lparr>error := Some message, connected := False\<rparr>) w"

definition finallyBlock :: "'j world \<Rightarrow> 'j world" where
  "finallyBlock w = notifySubscribers ((client (mgr w))\<lparr>connected := False\<rparr>) w"

definition finish :: "nat \<Rightarrow> 'j world \<Rightarrow> 'j world" where
  "finish t w =
     settle (snd (tasks w ! t)) (w\<lparr>tasks := (tasks w)[t := (Finished, snd (tasks w ! t))]\<rparr>)"

text \<open>\<^verbatim>\<open>await this.reader!.read()\<close>: the task waits on the reader the field holds now. With
  no reader the call throws a \<^verbatim>\<open>TypeError\<close> inside the \<^verbatim>\<open>try\<close> (its message is the
  engine's; the branch is there for completeness, the field holds a reader whenever a
  task reads).\<close>

definition nextRead :: "nat \<Rightarrow> 'j world \<Rightarrow> 'j world" where
  "nextRead t w =
     (case reader (mgr w) of
        Some r \<Rightarrow> w\<lparr>tasks := (tasks w)[t := (AwaitRead r, snd (tasks w ! t))]\<rparr>
      | None \<Rightarrow> finish t (finallyBlock (catchBlock ''TypeError'' w)))"

text \<open>\<^verbatim>\<open>_connect\<close> after \<^verbatim>\<open>fetch\<close> has settled: the request was rejected with an error, or
  the response has no body, or \<^verbatim>\<open>getReader()\<close> gives a new reader, which is stored in
  \<^verbatim>\<open>this.reader\<close> and read.\<close>

datatype fetch_result = Rejected string | NoBody | Body

definition fetchSettled :: "nat \<Rightarrow> fetch_result \<Rightarrow> 'j world \<Rightarrow> 'j world" where
  "fetchSettled t res w =
     (case res of
        Rejected message \<Rightarrow> finish t (finallyBlock (catchBlock message w))
      | NoBody \<Rightarrow>
          finish t (finallyBlock
            (catchBlock ''ReadableStream not supported in this environment'' w))
      | Body \<Rightarrow>
          nextRead t
            (w\<lparr>mgr := (mgr w)\<lparr>reader := Some (readers w)\<rparr>, readers := Suc (readers w)\<rparr>))"

text \<open>\<^verbatim>\<open>_connect\<close> after a \<^verbatim>\<open>read()\<close> has settled: \<^verbatim>\<open>done\<close> leaves the loop, a chunk (its
  decoded text) goes to \<^verbatim>\<open>_onMessage\<close> and the loop reads again, a rejection (or an error
  of the decoder) goes to \<^verbatim>\<open>catch\<close>. A read of a reader that was cancelled settles with
  \<^verbatim>\<open>done\<close>, whatever the server has sent.\<close>

datatype read_result = Chunk string | Done | Failed string

definition readSettled ::
  "(string \<Rightarrow> 'j option) \<Rightarrow> nat \<Rightarrow> nat \<Rightarrow> read_result \<Rightarrow> 'j world \<Rightarrow> 'j world option" where
  "readSettled parse t r res w =
     (case (if r \<in> set (cancelled w) then Done else res) of
        Done \<Rightarrow> Some (finish t (finallyBlock w))
      | Chunk text \<Rightarrow>
          (case onMessage parse text w of
             None \<Rightarrow> None
           | Some w1 \<Rightarrow> Some (nextRead t w1))
      | Failed message \<Rightarrow> Some (finish t (finallyBlock (catchBlock message w))))"

text \<open>\<^verbatim>\<open>subscribe\<close>, its \<^verbatim>\<open>unsubscribe\<close> closure, and the \<^verbatim>\<open>reconnect\<close> closure of the
  constructor.\<close>

definition subscribe :: "nat \<Rightarrow> 'j world \<Rightarrow> 'j world" where
  "subscribe subscriber w =
     (let w1 = w\<lparr>mgr := (mgr w)\<lparr>subscribers := set_add subscriber (subscribers (mgr w))\<rparr>\<rparr>
      in if reader (mgr w1) = None then connect (Some subscriber) w1
         else settle (Some subscriber) w1)"

definition unsubscribe :: "nat \<Rightarrow> 'j world \<Rightarrow> 'j world" where
  "unsubscribe subscriber w =
     (let w1 = w\<lparr>mgr := (mgr w)\<lparr>subscribers := set_delete subscriber (subscribers (mgr w))\<rparr>\<rparr>
      in if length (subscribers (mgr w1)) = 0 then disconnect w1 else w1)"

definition reconnect_call :: "'j world \<Rightarrow> 'j world" where
  "reconnect_call w = connect None (disconnect w)"

subsection \<open>Executions\<close>

text \<open>
  An execution is a list of events: calls from the application, and promises that settle.
  The runtime has one thread, so the code that an event starts runs up to its next
  \<^verbatim>\<open>await\<close> (or to its end) before the next event is handled. A settlement for a task
  that is not waiting for it does not happen and leaves the world as it is. \<open>None\<close> means
  that the handling of an event never returns. The events are not restricted further: an
  \<^verbatim>\<open>unsubscribe\<close> closure may be called for any subscriber at any time, which covers the
  executions of the program and more.
\<close>

datatype event =
    Subscribe nat
  | Unsubscribe nat
  | Reconnect
  | FetchSettles nat fetch_result
  | ReadSettles nat read_result

fun step :: "(string \<Rightarrow> 'j option) \<Rightarrow> event \<Rightarrow> 'j world \<Rightarrow> 'j world option" where
  "step parse (Subscribe s) w = Some (subscribe s w)"
| "step parse (Unsubscribe s) w = Some (unsubscribe s w)"
| "step parse Reconnect w = Some (reconnect_call w)"
| "step parse (FetchSettles t res) w =
     (if t < length (tasks w) then
        (case fst (tasks w ! t) of
           AwaitFetch \<Rightarrow> Some (fetchSettled t res w)
         | _ \<Rightarrow> Some w)
      else Some w)"
| "step parse (ReadSettles t res) w =
     (if t < length (tasks w) then
        (case fst (tasks w ! t) of
           AwaitRead r \<Rightarrow> readSettled parse t r res w
         | _ \<Rightarrow> Some w)
      else Some w)"

primrec run :: "(string \<Rightarrow> 'j option) \<Rightarrow> event list \<Rightarrow> 'j world \<Rightarrow> 'j world option" where
  "run parse [] w = Some w"
| "run parse (ev # evs) w =
     (case step parse ev w of None \<Rightarrow> None | Some w1 \<Rightarrow> run parse evs w1)"

subsection \<open>The module level holder\<close>

text \<open>
  \<^verbatim>\<open>statefulSubscribable\<close> holds the object that \<^verbatim>\<open>makeStatefulSubscribable\<close> (of the library
  \<^verbatim>\<open>@remote-ui/async-subscription\<close>) builds around a new manager. An object is known by the
  number it got when it was built, and by the manager inside it; \<^verbatim>\<open>destroy()\<close> of the
  library is recorded by that number.
\<close>

record 'j holder =
  statefulSubscribable :: "(nat \<times> 'j RemoteSSESubscribable) option"
  built :: nat
  destroyed :: "nat list"

definition empty_holder :: "'j holder" where
  "empty_holder = \<lparr>statefulSubscribable = None, built = 0, destroyed = []\<rparr>"

text \<open>The argument is \<^verbatim>\<open>string | undefined\<close>; \<^verbatim>\<open>undefined\<close> and the empty string are
  falsy.\<close>

definition truthy :: "string option \<Rightarrow> bool" where
  "truthy u = (case u of None \<Rightarrow> False | Some s \<Rightarrow> s \<noteq> [])"

definition useStatefulSubscribableSSE ::
  "string option \<Rightarrow> 'j holder \<Rightarrow> (nat \<times> 'j RemoteSSESubscribable) option \<times> 'j holder" where
  "useStatefulSubscribableSSE u h =
     (let h1 = (if statefulSubscribable h = None \<and> truthy u
                then h\<lparr>statefulSubscribable := Some (built h, constructor (the u)),
                       built := Suc (built h)\<rparr>
                else h)
      in (statefulSubscribable h1, h1))"

definition destroyStatefulSubscribableSSE :: "'j holder \<Rightarrow> 'j holder" where
  "destroyStatefulSubscribableSSE h =
     (case statefulSubscribable h of
        None \<Rightarrow> h\<lparr>statefulSubscribable := None\<rparr>
      | Some (ref, m) \<Rightarrow> h\<lparr>statefulSubscribable := None, destroyed := destroyed h @ [ref]\<rparr>)"

subsection \<open>Auxiliary definitions for stating the properties\<close>

text \<open>The calls of subscribers in a list of effects, and the events that are calls of
  \<^verbatim>\<open>subscribe\<close>.\<close>

fun is_call :: "'j effect \<Rightarrow> bool" where
  "is_call (Call s st) = True"
| "is_call e = False"

fun is_subscribe :: "event \<Rightarrow> bool" where
  "is_subscribe (Subscribe s) = True"
| "is_subscribe ev = False"

text \<open>
  The properties hold for every function in the place of \<^verbatim>\<open>JSON.parse\<close>. To run the
  program on concrete chunks a fragment of it is enough: the three texts below are parsed
  as \<^verbatim>\<open>JSON.parse\<close> parses them, and the examples use no other text that is valid JSON.
\<close>

datatype json = JNumber int | JObject "(string \<times> json) list"

definition sample_parse :: "string \<Rightarrow> json option" where
  "sample_parse s =
     (if s = ''1'' then Some (JNumber 1)
      else if s = ''{\"a\":1}'' then Some (JObject [(''a'', JNumber 1)])
      else if s = ''{\"b\":2}'' then Some (JObject [(''b'', JNumber 2)])
      else None)"

text \<open>A state is a spread of the record \<open>c\<close> when it differs from \<open>c\<close> at most in
  \<^verbatim>\<open>connected\<close>, \<^verbatim>\<open>lastMessage\<close> and \<^verbatim>\<open>error\<close>, the fields that the notifications of the
  source override. An effect agrees with \<open>c\<close> when a state it hands to a subscriber is a
  spread of \<open>c\<close>, and a record that \<^verbatim>\<open>subscribe\<close> returns is \<open>c\<close> itself.\<close>

definition spread_of :: "'j SSEClient \<Rightarrow> 'j SSEClient \<Rightarrow> bool" where
  "spread_of c st = (clientId st = clientId c \<and> reconnect st = reconnect c)"

fun agrees :: "'j SSEClient \<Rightarrow> 'j effect \<Rightarrow> bool" where
  "agrees c (Call s st) = spread_of c st"
| "agrees c (Returns s st) = (st = c)"
| "agrees c e = True"

text \<open>A world for the examples: \<open>world_open\<close> is the world after subscriber \<open>1\<close> has
  subscribed to a new manager for \<^verbatim>\<open>http://x\<close> and the response has arrived with a body.\<close>

definition stored :: "json SSEClient" where
  "stored =
     \<lparr>clientId = None, connected = False, lastMessage = None, error = None,
      reconnect = ReconnectManager\<rparr>"

definition world_open :: "json world" where
  "world_open =
     \<lparr>mgr = \<lparr>url = ''http://x'', client = stored, subscribers = [1], reader = Some 0\<rparr>,
      tasks = [(AwaitRead 0, Some 1)], cancelled = [], readers = 1,
      trace = [Fetch ''http://x'']\<rparr>"

section \<open>Properties\<close>

subsection \<open>What each operation leaves alone\<close>

lemma notifySubscribers_frame [simp]:
  "mgr (notifySubscribers st w) = mgr w"
  "tasks (notifySubscribers st w) = tasks w"
  "cancelled (notifySubscribers st w) = cancelled w"
  "readers (notifySubscribers st w) = readers w"
  "trace (notifySubscribers st w) = trace w @ map (\<lambda>s. Call s st) (subscribers (mgr w))"
  by (simp_all add: notifySubscribers_def)

lemma settle_frame [simp]:
  "mgr (settle a w) = mgr w"
  "tasks (settle a w) = tasks w"
  "cancelled (settle a w) = cancelled w"
  "readers (settle a w) = readers w"
  "trace (settle a w) = trace w @ (case a of None \<Rightarrow> [] | Some s \<Rightarrow> [Returns s (client (mgr w))])"
  by (simp_all add: settle_def split: option.split)

lemma catchBlock_frame [simp]:
  "mgr (catchBlock msg w) = mgr w"
  "tasks (catchBlock msg w) = tasks w"
  "cancelled (catchBlock msg w) = cancelled w"
  "readers (catchBlock msg w) = readers w"
  "trace (catchBlock msg w) =
     trace w @ map (\<lambda>s. Call s ((client (mgr w))\<lparr>error := Some msg, connected := False\<rparr>))
       (subscribers (mgr w))"
  by (simp_all add: catchBlock_def)

lemma finallyBlock_frame [simp]:
  "mgr (finallyBlock w) = mgr w"
  "tasks (finallyBlock w) = tasks w"
  "cancelled (finallyBlock w) = cancelled w"
  "readers (finallyBlock w) = readers w"
  "trace (finallyBlock w) =
     trace w @ map (\<lambda>s. Call s ((client (mgr w))\<lparr>connected := False\<rparr>)) (subscribers (mgr w))"
  by (simp_all add: finallyBlock_def)

lemma finish_frame [simp]:
  "mgr (finish t w) = mgr w"
  "tasks (finish t w) = (tasks w)[t := (Finished, snd (tasks w ! t))]"
  "cancelled (finish t w) = cancelled w"
  "readers (finish t w) = readers w"
  "trace (finish t w) =
     trace w @ (case snd (tasks w ! t) of None \<Rightarrow> [] | Some s \<Rightarrow> [Returns s (client (mgr w))])"
  by (simp_all add: finish_def split: option.split)

lemma forEachMessage_frame [simp]:
  "mgr (forEachMessage objs w) = mgr w"
  "tasks (forEachMessage objs w) = tasks w"
  "cancelled (forEachMessage objs w) = cancelled w"
  "readers (forEachMessage objs w) = readers w"
  by (induction objs arbitrary: w; simp)+

lemma forEachMessage_trace:
  "trace (forEachMessage objs w) =
     trace w @ concat (map (\<lambda>obj. map (\<lambda>s. Call s
        ((client (mgr w))\<lparr>connected := True, lastMessage := Some obj\<rparr>)) (subscribers (mgr w))) objs)"
  by (induction objs arbitrary: w) simp_all

lemma extractFromSSE_frame:
  assumes "extractFromSSE parse text w = Some (objs, w1)"
  shows "mgr w1 = mgr w" "tasks w1 = tasks w" "cancelled w1 = cancelled w" "readers w1 = readers w"
  using assms by (auto simp: extractFromSSE_def split: option.splits)

lemma onMessage_frame:
  assumes "onMessage parse text w = Some w1"
  shows "mgr w1 = mgr w" "tasks w1 = tasks w" "cancelled w1 = cancelled w" "readers w1 = readers w"
  using assms by (auto simp: onMessage_def split: option.splits dest: extractFromSSE_frame)

lemma disconnect_frame [simp]:
  "mgr (disconnect w) = mgr w"
  "tasks (disconnect w) = tasks w"
  "readers (disconnect w) = readers w"
  by (simp_all add: disconnect_def split: option.split)

lemma disconnect_trace:
  "trace (disconnect w) =
     trace w @ (case reader (mgr w) of None \<Rightarrow> []
       | Some r \<Rightarrow> Cancel r # map (\<lambda>s. Call s ((client (mgr w))\<lparr>connected := False\<rparr>))
           (subscribers (mgr w)))"
  by (simp add: disconnect_def split: option.split)

lemma connect_frame [simp]:
  "mgr (connect a w) = mgr w"
  "cancelled (connect a w) = cancelled w"
  "readers (connect a w) = readers w"
  by (simp_all add: connect_def)

lemma nextRead_mgr [simp]: "mgr (nextRead t w) = mgr w"
  by (simp add: nextRead_def split: option.split)

lemma fetchSettled_mgr:
  "url (mgr (fetchSettled t res w)) = url (mgr w)"
  "client (mgr (fetchSettled t res w)) = client (mgr w)"
  "subscribers (mgr (fetchSettled t res w)) = subscribers (mgr w)"
  "\<exists>r'. reader (mgr w) = Some r' \<Longrightarrow> \<exists>r'. reader (mgr (fetchSettled t res w)) = Some r'"
  by (simp_all add: fetchSettled_def split: fetch_result.split)

lemma readSettled_mgr:
  "readSettled parse t r res w = Some w1 \<Longrightarrow> mgr w1 = mgr w"
  by (auto simp: readSettled_def split: read_result.splits option.splits if_splits
      dest: onMessage_frame(1))

lemma subscribe_mgr:
  "url (mgr (subscribe s w)) = url (mgr w)"
  "client (mgr (subscribe s w)) = client (mgr w)"
  "reader (mgr (subscribe s w)) = reader (mgr w)"
  "subscribers (mgr (subscribe s w)) = set_add s (subscribers (mgr w))"
  by (simp_all add: subscribe_def Let_def)

lemma unsubscribe_mgr:
  "url (mgr (unsubscribe s w)) = url (mgr w)"
  "client (mgr (unsubscribe s w)) = client (mgr w)"
  "reader (mgr (unsubscribe s w)) = reader (mgr w)"
  "subscribers (mgr (unsubscribe s w)) = set_delete s (subscribers (mgr w))"
  by (simp_all add: unsubscribe_def Let_def)

lemma reconnect_call_mgr [simp]: "mgr (reconnect_call w) = mgr w"
  by (simp add: reconnect_call_def)

lemma step_client: "step parse ev w = Some w1 \<Longrightarrow> client (mgr w1) = client (mgr w)"
  by (cases ev)
    (auto simp: subscribe_mgr unsubscribe_mgr fetchSettled_mgr
      split: if_splits stage.splits dest: readSettled_mgr)

lemma step_url: "step parse ev w = Some w1 \<Longrightarrow> url (mgr w1) = url (mgr w)"
  by (cases ev)
    (auto simp: subscribe_mgr unsubscribe_mgr fetchSettled_mgr
      split: if_splits stage.splits dest: readSettled_mgr)

lemma step_reader:
  "step parse ev w = Some w1 \<Longrightarrow> reader (mgr w) \<noteq> None \<Longrightarrow> reader (mgr w1) \<noteq> None"
  by (cases ev)
    (auto simp: subscribe_mgr unsubscribe_mgr fetchSettled_mgr
      split: if_splits stage.splits dest: readSettled_mgr)

lemma run_client: "run parse evs w = Some w1 \<Longrightarrow> client (mgr w1) = client (mgr w)"
  by (induction evs arbitrary: w) (auto split: option.splits dest: step_client)

lemma run_reader:
  "run parse evs w = Some w1 \<Longrightarrow> reader (mgr w) \<noteq> None \<Longrightarrow> reader (mgr w1) \<noteq> None"
proof (induction evs arbitrary: w)
  case Nil
  then show ?case by simp
next
  case (Cons ev evs)
  from Cons.prems(1) obtain w2 where s: "step parse ev w = Some w2" and r: "run parse evs w2 = Some w1"
    by (auto split: option.splits)
  from step_reader [OF s Cons.prems(2)] have "reader (mgr w2) \<noteq> None" .
  from Cons.IH [OF r this] show ?case .
qed

subsection \<open>The decoder\<close>

text \<open>What \<open>find_at\<close> answers: the first place where the pattern stands.\<close>

lemma find_at_finds:
  "j \<le> length cs \<Longrightarrow> take (length pat) (drop j cs) = pat \<Longrightarrow>
   \<exists>j'\<le>j. find_at pat cs k = int (k + j') \<and> take (length pat) (drop j' cs) = pat"
proof (induction cs arbitrary: j k)
  case Nil
  then show ?case by auto
next
  case (Cons c cs)
  show ?case
  proof (cases "take (length pat) (c # cs) = pat")
    case True
    then have "find_at pat (c # cs) k = int (k + 0) \<and> take (length pat) (drop 0 (c # cs)) = pat"
      by simp
    then show ?thesis by blast
  next
    case False
    with Cons.prems(2) obtain j0 where j: "j = Suc j0"
      by (cases j) auto
    with Cons.prems have "j0 \<le> length cs" "take (length pat) (drop j0 cs) = pat"
      by simp_all
    from Cons.IH [OF this, of "Suc k"] obtain j' where
      j': "j' \<le> j0" "find_at pat cs (Suc k) = int (Suc k + j')" "take (length pat) (drop j' cs) = pat"
      by blast
    with False j have "Suc j' \<le> j \<and> find_at pat (c # cs) k = int (k + Suc j') \<and>
        take (length pat) (drop (Suc j') (c # cs)) = pat"
      by simp
    then show ?thesis by blast
  qed
qed


lemma find_at_char:
  "find_at [c] cs k = - 1 \<and> c \<notin> set cs \<or>
   (\<exists>j<length cs. find_at [c] cs k = int (k + j) \<and> cs ! j = c)"
proof (induction cs arbitrary: k)
  case Nil
  then show ?case by simp
next
  case (Cons x xs)
  show ?case
  proof (cases "x = c")
    case True
    then have "0 < length (x # xs) \<and> find_at [c] (x # xs) k = int (k + 0) \<and> (x # xs) ! 0 = c"
      by simp
    then show ?thesis by blast
  next
    case False
    from Cons.IH [of "Suc k"] show ?thesis
    proof
      assume "find_at [c] xs (Suc k) = - 1 \<and> c \<notin> set xs"
      with False show ?thesis by simp
    next
      assume "\<exists>j<length xs. find_at [c] xs (Suc k) = int (Suc k + j) \<and> xs ! j = c"
      then obtain j where "j < length xs" "find_at [c] xs (Suc k) = int (Suc k + j)" "xs ! j = c"
        by blast
      with False have "Suc j < length (x # xs) \<and> find_at [c] (x # xs) k = int (k + Suc j) \<and>
          (x # xs) ! Suc j = c"
        by simp
      then show ?thesis by blast
    qed
  qed
qed

text \<open>What \<open>indexOf\<close> answers for the marker and for the newline.\<close>

lemma marker_length: "length ''data: '' = 6"
  by simp

lemmas find_at_finds_marker = find_at_finds [where pat = "''data: ''", unfolded marker_length]


lemma marker_fits:
  assumes "take 6 (drop p s) = ''data: ''"
  shows "p + 6 \<le> length s"
proof -
  from assms have "length (take 6 (drop p s)) = 6" by simp
  then show ?thesis by simp
qed

lemma indexOf_marker_found:
  assumes "take 6 (drop p s) = ''data: ''" and "i \<le> int p"
  shows "\<exists>k\<le>p. indexOf s ''data: '' i = int k \<and> take 6 (drop k s) = ''data: ''"
proof -
  define start where "start = nat (min (max i 0) (int (length s)))"
  from marker_fits [OF assms(1)] assms(2) have sp: "start \<le> p" and pl: "p \<le> length s"
    by (simp_all add: start_def)
  have "p - start \<le> length (drop start s)"
    using pl by simp
  moreover have "take 6 (drop (p - start) (drop start s)) = ''data: ''"
    using assms(1) sp by simp
  ultimately obtain j' where j': "j' \<le> p - start"
    "find_at ''data: '' (drop start s) start = int (start + j')"
    "take 6 (drop j' (drop start s)) = ''data: ''"
    using find_at_finds_marker [of "p - start" "drop start s" start] by blast
  from j'(1) sp have "start + j' \<le> p" by simp
  moreover from j'(2) have "indexOf s ''data: '' i = int (start + j')"
    by (simp add: indexOf_def start_def Let_def)
  moreover from j'(3) have "take 6 (drop (start + j') s) = ''data: ''"
    by (simp add: add.commute)
  ultimately show ?thesis by blast
qed


lemma indexOf_newline:
  "indexOf s [CHR 0x0A] i = - 1 \<and> CHR 0x0A \<notin> set (drop (nat i) s) \<or>
   (\<exists>e<length s. indexOf s [CHR 0x0A] i = int e \<and> i \<le> int e \<and> s ! e = CHR 0x0A)"
proof -
  define start where "start = nat (min (max i 0) (int (length s)))"
  have "start = min (nat i) (length s)"
    by (simp add: start_def)
  then have d: "drop start s = drop (nat i) s"
    by (cases "nat i \<le> length s") simp_all
  from find_at_char [of "CHR 0x0A" "drop start s" start] show ?thesis
  proof
    assume "find_at [CHR 0x0A] (drop start s) start = - 1 \<and> CHR 0x0A \<notin> set (drop start s)"
    then show ?thesis
      by (simp add: indexOf_def start_def [symmetric] Let_def d)
  next
    assume "\<exists>j<length (drop start s).
      find_at [CHR 0x0A] (drop start s) start = int (start + j) \<and> drop start s ! j = CHR 0x0A"
    then obtain j where j: "j < length (drop start s)"
      "find_at [CHR 0x0A] (drop start s) start = int (start + j)" "drop start s ! j = CHR 0x0A"
      by blast
    from j(1) have l: "start + j < length s" by simp
    moreover from j(2) have "indexOf s [CHR 0x0A] i = int (start + j)"
      by (simp add: indexOf_def start_def Let_def)
    moreover from j(3) l have "s ! (start + j) = CHR 0x0A" by simp
    moreover from l have "i \<le> int (start + j)" by (simp add: start_def)
    ultimately show ?thesis by blast
  qed
qed


lemma marker_has_no_newline:
  assumes "take 6 (drop p s) = ''data: ''" and "p \<le> q" and "q < p + 6"
  shows "s ! q \<noteq> CHR 0x0A"
proof -
  from marker_fits [OF assms(1)] assms(2,3) have "s ! q = take 6 (drop p s) ! (q - p)"
    by simp
  also have "\<dots> = ''data: '' ! (q - p)"
    by (simp only: assms(1))
  also have "\<dots> \<in> set ''data: ''"
    using assms(2,3) by (intro nth_mem) simp
  finally show ?thesis by auto
qed

text \<open>
  The scan returns exactly when every marker of the chunk has a newline somewhere after
  it. If some marker has none, the scan reaches a marker with \<^verbatim>\<open>endIndex\<close> \<open>-1\<close>, and the
  next search starts at \<open>0\<close> again: the property "a marker without a newline lies at or
  after \<^verbatim>\<open>startIndex\<close>" holds at every turn of the loop, so the loop never finds \<open>-1\<close> for
  \<^verbatim>\<open>dataIndex\<close>. If every marker has one, \<^verbatim>\<open>startIndex\<close> grows at every turn.
\<close>

lemma scan_stuck:
  assumes "scanDataLines s i ls = Some y"
  shows "\<not> (\<exists>p. i \<le> int p \<and> take 6 (drop p s) = ''data: '' \<and>
            CHR 0x0A \<notin> set (drop (p + 6) s))"
proof (rule scanDataLines.raw_induct
    [where P = "\<lambda>s i ls y. \<not> (\<exists>p. i \<le> int p \<and> take 6 (drop p s) = ''data: '' \<and>
            CHR 0x0A \<notin> set (drop (p + 6) s))", OF _ assms])
  fix scan :: "string \<Rightarrow> int \<Rightarrow> string list \<Rightarrow> string list option"
  fix s i ls y
  assume IH: "\<And>s i ls y. scan s i ls = Some y \<Longrightarrow>
    \<not> (\<exists>p. i \<le> int p \<and> take 6 (drop p s) = ''data: '' \<and> CHR 0x0A \<notin> set (drop (p + 6) s))"
  assume eq: "(let dataIndex = indexOf s ''data: '' i in
      if dataIndex = - 1 then Some ls
      else
        let startIndex' = dataIndex + 6;
            endIndex = indexOf s [CHR 0x0A] startIndex'
        in scan s endIndex (ls @ [trim (slice s startIndex' endIndex)])) = Some y"
  show "\<not> (\<exists>p. i \<le> int p \<and> take 6 (drop p s) = ''data: '' \<and>
            CHR 0x0A \<notin> set (drop (p + 6) s))"
  proof
    assume "\<exists>p. i \<le> int p \<and> take 6 (drop p s) = ''data: '' \<and>
            CHR 0x0A \<notin> set (drop (p + 6) s)"
    then obtain p where p: "i \<le> int p" "take 6 (drop p s) = ''data: ''"
      "CHR 0x0A \<notin> set (drop (p + 6) s)"
      by blast
    from indexOf_marker_found [OF p(2) p(1)] obtain k where
      k: "k \<le> p" "indexOf s ''data: '' i = int k"
      by blast
    define e where "e = indexOf s [CHR 0x0A] (int k + 6)"
    from eq k(2) have "scan s e (ls @ [trim (slice s (int k + 6) e)]) = Some y"
      by (simp add: Let_def e_def)
    from IH [OF this] have no: "\<not> (\<exists>p. e \<le> int p \<and> take 6 (drop p s) = ''data: '' \<and>
        CHR 0x0A \<notin> set (drop (p + 6) s))" .
    have "e \<le> int p"
    proof -
      from indexOf_newline [of s "int k + 6"] show ?thesis
      proof
        assume "indexOf s [CHR 0x0A] (int k + 6) = - 1 \<and>
          CHR 0x0A \<notin> set (drop (nat (int k + 6)) s)"
        then show ?thesis by (simp add: e_def)
      next
        assume "\<exists>e'<length s. indexOf s [CHR 0x0A] (int k + 6) = int e' \<and>
          int k + 6 \<le> int e' \<and> s ! e' = CHR 0x0A"
        then obtain e' where e': "e' < length s" "e = int e'" "s ! e' = CHR 0x0A"
          by (auto simp: e_def)
        have "e' < p"
        proof (rule ccontr)
          assume "\<not> e' < p"
          then have ge: "p \<le> e'" by simp
          show False
          proof (cases "e' < p + 6")
            case True
            from marker_has_no_newline [OF p(2) ge True] e'(3) show False by simp
          next
            case False
            then have "s ! e' = drop (p + 6) s ! (e' - (p + 6))"
              using e'(1) by simp
            moreover have "e' - (p + 6) < length (drop (p + 6) s)"
              using False e'(1) by simp
            ultimately have "s ! e' \<in> set (drop (p + 6) s)"
              by (metis nth_mem)
            with e'(3) p(3) show False by simp
          qed
        qed
        with e'(2) show ?thesis by simp
      qed
    qed
    with p(2,3) no show False by blast
  qed
qed



lemma scan_never_returns:
  assumes "take 6 (drop p s) = ''data: ''" and "CHR 0x0A \<notin> set (drop (p + 6) s)"
  shows "scanDataLines s 0 [] = None"
proof (cases "scanDataLines s 0 []")
  case None
  then show ?thesis .
next
  case (Some y)
  from scan_stuck [OF Some] assms show ?thesis by simp
qed

text \<open>
  Claim C7 says that the marker scan is total, and that a marker with no newline after it
  gives the payload up to the end of the chunk. On the chunk \<^verbatim>\<open>data: x\<close> the source does
  neither: \<^verbatim>\<open>indexOf('\n', 6)\<close> is \<open>-1\<close>, so \<^verbatim>\<open>slice(6, -1)\<close> is pushed (the empty string,
  one code unit short of the end) and \<^verbatim>\<open>startIndex\<close> becomes \<open>-1\<close>; \<^verbatim>\<open>indexOf('data: ', -1)\<close>
  searches from \<open>0\<close> and finds the same marker again. The scan never returns, and neither
  do \<^verbatim>\<open>_extractFromSSE\<close> and \<^verbatim>\<open>_onMessage\<close>.
\<close>

theorem extraction_never_returns_without_newline:
  "scanDataLines ''data: x'' 0 [] = None \<and>
   extractFromSSE parse ''data: x'' w = None \<and>
   onMessage parse ''data: x'' w = None"
proof -
  have "scanDataLines ''data: x'' 0 [] = None"
    by (rule scan_never_returns [of 0]) simp_all
  then show ?thesis
    by (simp add: extractFromSSE_def onMessage_def)
qed









lemma scan_two_frames:
  "scanDataLines ''data: {\"a\":1}\<newline>data: {\"b\":2}\<newline>'' 0 [] =
     Some [''{\"a\":1}'', ''{\"b\":2}'']"
  by code_simp

text \<open>
  Claim C5: for the chunk made of the frame \<^verbatim>\<open>data: {"a":1}\<close>, a newline, the frame
  \<^verbatim>\<open>data: {"b":2}\<close> and a newline, the decoder returns exactly the two messages, and
  \<^verbatim>\<open>_onMessage\<close> notifies all subscribers of the first message and then all subscribers of
  the second one. \<^verbatim>\<open>JSON.parse\<close> is assumed to accept the two payloads.
\<close>

theorem two_frames_two_broadcasts:
  assumes "parse ''{\"a\":1}'' = Some a" and "parse ''{\"b\":2}'' = Some b"
  shows "extractFromSSE parse ''data: {\"a\":1}\<newline>data: {\"b\":2}\<newline>'' w = Some ([a, b], w) \<and>
         onMessage parse ''data: {\"a\":1}\<newline>data: {\"b\":2}\<newline>'' w =
           Some (forEachMessage [a, b] w) \<and>
         trace (forEachMessage [a, b] w) = trace w
           @ map (\<lambda>s. Call s ((client (mgr w))\<lparr>connected := True, lastMessage := Some a\<rparr>))
               (subscribers (mgr w))
           @ map (\<lambda>s. Call s ((client (mgr w))\<lparr>connected := True, lastMessage := Some b\<rparr>))
               (subscribers (mgr w))"
proof -
  have "mapParse parse [''{\"a\":1}'', ''{\"b\":2}''] = Some [a, b]"
    using assms by simp
  then have "extractFromSSE parse ''data: {\"a\":1}\<newline>data: {\"b\":2}\<newline>'' w = Some ([a, b], w)"
    using scan_two_frames by (simp add: extractFromSSE_def)
  then show ?thesis
    by (simp add: onMessage_def forEachMessage_trace)
qed

theorem two_frames_two_broadcasts_witness:
  "sample_parse ''{\"a\":1}'' = Some (JObject [(''a'', JNumber 1)]) \<and>
   sample_parse ''{\"b\":2}'' = Some (JObject [(''b'', JNumber 2)]) \<and>
   extractFromSSE sample_parse ''data: {\"a\":1}\<newline>data: {\"b\":2}\<newline>''
       (subscribe 2 (subscribe 1 (new_world ''http://x''))) =
     Some ([JObject [(''a'', JNumber 1)], JObject [(''b'', JNumber 2)]],
           subscribe 2 (subscribe 1 (new_world ''http://x''))) \<and>
   trace (forEachMessage [JObject [(''a'', JNumber 1)], JObject [(''b'', JNumber 2)]]
       (subscribe 2 (subscribe 1 (new_world ''http://x'')))) =
     [Fetch ''http://x'', Fetch ''http://x'',
      Call 1 \<lparr>clientId = None, connected = True, lastMessage = Some (JObject [(''a'', JNumber 1)]),
        error = None, reconnect = ReconnectManager\<rparr>,
      Call 2 \<lparr>clientId = None, connected = True, lastMessage = Some (JObject [(''a'', JNumber 1)]),
        error = None, reconnect = ReconnectManager\<rparr>,
      Call 1 \<lparr>clientId = None, connected = True, lastMessage = Some (JObject [(''b'', JNumber 2)]),
        error = None, reconnect = ReconnectManager\<rparr>,
      Call 2 \<lparr>clientId = None, connected = True, lastMessage = Some (JObject [(''b'', JNumber 2)]),
        error = None, reconnect = ReconnectManager\<rparr>]"
proof -
  have a: "sample_parse ''{\"a\":1}'' = Some (JObject [(''a'', JNumber 1)])"
    by (simp add: sample_parse_def)
  have b: "sample_parse ''{\"b\":2}'' = Some (JObject [(''b'', JNumber 2)])"
    by (simp add: sample_parse_def)
  from two_frames_two_broadcasts [OF a b, of "subscribe 2 (subscribe 1 (new_world ''http://x''))"] a b
  show ?thesis
    by (simp add: subscribe_def connect_def new_world_def constructor_def defaultSSEClient_def
        set_add_def settle_def)
qed


subsection \<open>The stored client record\<close>

lemma agrees_calls [simp]:
  "list_all (agrees c) (map (\<lambda>s. Call s st) subs) = (subs = [] \<or> spread_of c st)"
  by (induction subs) auto

lemma spread_of_updates [simp]:
  "spread_of c (c\<lparr>connected := b\<rparr>)"
  "spread_of c (c\<lparr>error := e\<rparr>)"
  "spread_of c (c\<lparr>error := e, connected := b\<rparr>)"
  "spread_of c (c\<lparr>connected := b, lastMessage := l\<rparr>)"
  by (simp_all add: spread_of_def)

lemma notifySubscribers_agrees:
  "list_all (agrees c) (trace w) \<Longrightarrow> spread_of c st \<Longrightarrow>
   list_all (agrees c) (trace (notifySubscribers st w))"
  by simp

lemma settle_agrees:
  "list_all (agrees c) (trace w) \<Longrightarrow> client (mgr w) = c \<Longrightarrow>
   list_all (agrees c) (trace (settle a w))"
  by (simp split: option.split)

lemma finish_agrees:
  "list_all (agrees c) (trace w) \<Longrightarrow> client (mgr w) = c \<Longrightarrow>
   list_all (agrees c) (trace (finish t w))"
  by (simp split: option.split)

lemma catchBlock_agrees:
  "list_all (agrees c) (trace w) \<Longrightarrow> client (mgr w) = c \<Longrightarrow>
   list_all (agrees c) (trace (catchBlock msg w))"
  by auto

lemma finallyBlock_agrees:
  "list_all (agrees c) (trace w) \<Longrightarrow> client (mgr w) = c \<Longrightarrow>
   list_all (agrees c) (trace (finallyBlock w))"
  by auto

lemma forEachMessage_agrees:
  "list_all (agrees c) (trace w) \<Longrightarrow> client (mgr w) = c \<Longrightarrow>
   list_all (agrees c) (trace (forEachMessage objs w))"
  by (induction objs arbitrary: w) auto

lemma extractFromSSE_agrees:
  "extractFromSSE parse text w = Some (objs, w1) \<Longrightarrow>
   list_all (agrees c) (trace w) \<Longrightarrow> client (mgr w) = c \<Longrightarrow> list_all (agrees c) (trace w1)"
  by (auto simp: extractFromSSE_def split: option.splits)

lemma onMessage_agrees:
  assumes "onMessage parse text w = Some w1"
    and "list_all (agrees c) (trace w)" and "client (mgr w) = c"
  shows "list_all (agrees c) (trace w1)"
proof -
  from assms(1) obtain objs w0 where e: "extractFromSSE parse text w = Some (objs, w0)"
    and w1: "w1 = forEachMessage objs w0"
    by (auto simp: onMessage_def split: option.splits)
  from extractFromSSE_agrees [OF e assms(2,3)] have "list_all (agrees c) (trace w0)" .
  moreover from extractFromSSE_frame(1) [OF e] assms(3) have "client (mgr w0) = c" by simp
  ultimately show ?thesis unfolding w1 by (rule forEachMessage_agrees)
qed

lemma disconnect_agrees:
  "list_all (agrees c) (trace w) \<Longrightarrow> client (mgr w) = c \<Longrightarrow>
   list_all (agrees c) (trace (disconnect w))"
  by (auto simp: disconnect_trace split: option.split)

lemma connect_agrees:
  "list_all (agrees c) (trace w) \<Longrightarrow> client (mgr w) = c \<Longrightarrow>
   list_all (agrees c) (trace (connect a w))"
  by (simp add: connect_def split: option.split)

lemma nextRead_agrees:
  "list_all (agrees c) (trace w) \<Longrightarrow> client (mgr w) = c \<Longrightarrow>
   list_all (agrees c) (trace (nextRead t w))"
  by (auto simp: nextRead_def split: option.split)

lemma fetchSettled_agrees:
  "list_all (agrees c) (trace w) \<Longrightarrow> client (mgr w) = c \<Longrightarrow>
   list_all (agrees c) (trace (fetchSettled t res w))"
  by (cases res) (auto simp: fetchSettled_def intro!: nextRead_agrees split: option.split)

lemma readSettled_agrees:
  assumes "readSettled parse t r res w = Some w1"
    and "list_all (agrees c) (trace w)" and "client (mgr w) = c"
  shows "list_all (agrees c) (trace w1)"
proof (cases "if r \<in> set (cancelled w) then Done else res")
  case (Chunk payload)
  with assms(1) obtain w0 where m: "onMessage parse payload w = Some w0" and w1: "w1 = nextRead t w0"
    by (auto simp: readSettled_def split: option.splits)
  from onMessage_agrees [OF m assms(2,3)] have "list_all (agrees c) (trace w0)" .
  moreover from onMessage_frame(1) [OF m] assms(3) have "client (mgr w0) = c" by simp
  ultimately show ?thesis unfolding w1 by (rule nextRead_agrees)
next
  case Done
  with assms show ?thesis
    by (auto simp: readSettled_def split: option.split)
next
  case (Failed msg)
  with assms show ?thesis
    by (auto simp: readSettled_def split: option.split)
qed

lemma subscribe_agrees:
  "list_all (agrees c) (trace w) \<Longrightarrow> client (mgr w) = c \<Longrightarrow>
   list_all (agrees c) (trace (subscribe s w))"
  by (simp add: subscribe_def Let_def connect_agrees settle_agrees)

lemma unsubscribe_agrees:
  "list_all (agrees c) (trace w) \<Longrightarrow> client (mgr w) = c \<Longrightarrow>
   list_all (agrees c) (trace (unsubscribe s w))"
  by (simp add: unsubscribe_def Let_def disconnect_agrees)

lemma reconnect_call_agrees:
  "list_all (agrees c) (trace w) \<Longrightarrow> client (mgr w) = c \<Longrightarrow>
   list_all (agrees c) (trace (reconnect_call w))"
  by (simp add: reconnect_call_def connect_agrees disconnect_agrees)

lemma step_agrees:
  assumes "step parse ev w = Some w1"
    and "list_all (agrees c) (trace w)" and "client (mgr w) = c"
  shows "list_all (agrees c) (trace w1)"
proof (cases ev)
  case (Subscribe s)
  with assms show ?thesis by (auto simp: subscribe_agrees)
next
  case (Unsubscribe s)
  with assms show ?thesis by (auto simp: unsubscribe_agrees)
next
  case Reconnect
  with assms show ?thesis by (auto simp: reconnect_call_agrees)
next
  case (FetchSettles t res)
  with assms show ?thesis
    by (auto simp: fetchSettled_agrees split: if_splits stage.splits)
next
  case (ReadSettles t res)
  with assms show ?thesis
    by (auto split: if_splits stage.splits dest: readSettled_agrees)
qed

lemma run_agrees:
  "run parse evs w = Some w1 \<Longrightarrow> list_all (agrees c) (trace w) \<Longrightarrow> client (mgr w) = c \<Longrightarrow>
   list_all (agrees c) (trace w1)"
proof (induction evs arbitrary: w)
  case Nil
  then show ?case by simp
next
  case (Cons ev evs)
  from Cons.prems(1) obtain w2 where s: "step parse ev w = Some w2"
    and r: "run parse evs w2 = Some w1"
    by (auto split: option.splits)
  from step_agrees [OF s Cons.prems(2,3)] have "list_all (agrees c) (trace w2)" .
  moreover from step_client [OF s] Cons.prems(3) have "client (mgr w2) = c" by simp
  ultimately show ?case using Cons.IH [OF r] by blast
qed

text \<open>
  Claim C9: no operation writes the field \<^verbatim>\<open>client\<close>. After any execution that starts from
  a new manager, the field is the record the constructor built, with \<^verbatim>\<open>connected\<close> false,
  no \<^verbatim>\<open>lastMessage\<close> and no \<^verbatim>\<open>error\<close>; every state handed to a subscriber is a spread of
  it, every record that \<^verbatim>\<open>subscribe\<close> returned is the record itself, and the getters
  \<^verbatim>\<open>initial\<close> and \<^verbatim>\<open>current\<close> answer \<^verbatim>\<open>defaultSSEClient\<close>.
\<close>

theorem stored_client_is_never_written:
  assumes "run parse evs (new_world u) = Some w"
  shows "client (mgr w) = defaultSSEClient\<lparr>reconnect := ReconnectManager\<rparr> \<and>
         connected (client (mgr w)) = False \<and>
         lastMessage (client (mgr w)) = None \<and>
         error (client (mgr w)) = None \<and>
         list_all (agrees (client (mgr w))) (trace w) \<and>
         initial (mgr w) = defaultSSEClient \<and>
         current (mgr w) = defaultSSEClient \<and>
         connected (current (mgr w)) = False \<and>
         lastMessage (current (mgr w)) = None \<and>
         error (current (mgr w)) = None"
proof -
  have c: "client (mgr w) = defaultSSEClient\<lparr>reconnect := ReconnectManager\<rparr>"
    using run_client [OF assms] by (simp add: new_world_def constructor_def)
  have "list_all (agrees (client (mgr (new_world u)))) (trace w)"
    by (rule run_agrees [OF assms]) (simp_all add: new_world_def)
  then have "list_all (agrees (client (mgr w))) (trace w)"
    using run_client [OF assms] by simp
  with c show ?thesis
    by (simp add: initial_def current_def defaultSSEClient_def)
qed

subsection \<open>Example executions\<close>

lemma run_world_open:
  "run sample_parse [Subscribe 1, FetchSettles 0 Body] (new_world ''http://x'') = Some world_open"
  by code_simp

theorem stored_client_is_never_written_witness:
  "run sample_parse [Subscribe 1, FetchSettles 0 Body] (new_world ''http://x'') = Some world_open \<and>
   client (mgr world_open) = stored \<and>
   connected (client (mgr world_open)) = False \<and>
   lastMessage (client (mgr world_open)) = None \<and>
   error (client (mgr world_open)) = None \<and>
   current (mgr world_open) = defaultSSEClient"
proof -
  from stored_client_is_never_written [OF run_world_open]
  have "client (mgr world_open) = stored \<and>
   connected (client (mgr world_open)) = False \<and>
   lastMessage (client (mgr world_open)) = None \<and>
   error (client (mgr world_open)) = None \<and>
   current (mgr world_open) = defaultSSEClient"
    by (simp add: stored_def defaultSSEClient_def)
  with run_world_open show ?thesis by (rule conjI)
qed

subsection \<open>The reader field\<close>

lemma subscribe_with_reader:
  assumes "reader (mgr w) \<noteq> None"
  shows "tasks (subscribe s w) = tasks w"
    and "trace (subscribe s w) = trace w @ [Returns s (client (mgr w))]"
    and "s \<in> set (subscribers (mgr (subscribe s w)))"
  using assms by (auto simp: subscribe_def Let_def set_add_def)

text \<open>
  Claim C10: \<^verbatim>\<open>_disconnect\<close> and \<^verbatim>\<open>unsubscribe\<close> leave the field \<^verbatim>\<open>reader\<close> as it is, and once
  the field holds a reader it holds one after every execution. So after any execution that
  follows the opening of a connection (the last subscriber may have unsubscribed in it), a
  call of \<^verbatim>\<open>subscribe\<close> registers the callback, starts no task and issues no request: it
  only returns.
\<close>

theorem reader_is_never_cleared:
  assumes "reader (mgr w) \<noteq> None" and "run parse evs w = Some w1"
  shows "reader (mgr (disconnect w)) = reader (mgr w) \<and>
         reader (mgr (unsubscribe s w)) = reader (mgr w) \<and>
         reader (mgr w1) \<noteq> None \<and>
         step parse (Subscribe s') w1 = Some (subscribe s' w1) \<and>
         s' \<in> set (subscribers (mgr (subscribe s' w1))) \<and>
         tasks (subscribe s' w1) = tasks w1 \<and>
         trace (subscribe s' w1) = trace w1 @ [Returns s' (client (mgr w1))]"
proof -
  from run_reader [OF assms(2,1)] have r: "reader (mgr w1) \<noteq> None" .
  from subscribe_with_reader [OF r, of s'] r show ?thesis
    by (simp add: unsubscribe_mgr)
qed

theorem reader_is_never_cleared_witness:
  "reader (mgr world_open) = Some 0 \<and>
   run sample_parse [Unsubscribe 1] world_open =
     Some (world_open\<lparr>mgr := (mgr world_open)\<lparr>subscribers := []\<rparr>, cancelled := [0],
             trace := [Fetch ''http://x'', Cancel 0]\<rparr>) \<and>
   reader (mgr (unsubscribe 1 world_open)) = Some 0 \<and>
   subscribers (mgr (subscribe 2
     (world_open\<lparr>mgr := (mgr world_open)\<lparr>subscribers := []\<rparr>, cancelled := [0],
        trace := [Fetch ''http://x'', Cancel 0]\<rparr>))) = [2] \<and>
   tasks (subscribe 2
     (world_open\<lparr>mgr := (mgr world_open)\<lparr>subscribers := []\<rparr>, cancelled := [0],
        trace := [Fetch ''http://x'', Cancel 0]\<rparr>)) = [(AwaitRead 0, Some 1)] \<and>
   trace (subscribe 2
     (world_open\<lparr>mgr := (mgr world_open)\<lparr>subscribers := []\<rparr>, cancelled := [0],
        trace := [Fetch ''http://x'', Cancel 0]\<rparr>)) =
     [Fetch ''http://x'', Cancel 0, Returns 2 stored]"
proof -
  have h1: "reader (mgr world_open) \<noteq> None"
    by (simp add: world_open_def)
  have h2: "run sample_parse [Unsubscribe 1] world_open =
     Some (world_open\<lparr>mgr := (mgr world_open)\<lparr>subscribers := []\<rparr>, cancelled := [0],
             trace := [Fetch ''http://x'', Cancel 0]\<rparr>)"
    by (simp add: world_open_def unsubscribe_def set_delete_def disconnect_def
        notifySubscribers_def)
  from reader_is_never_cleared [OF h1 h2, of 1 2] h2 show ?thesis
    by (simp add: world_open_def subscribe_def set_add_def settle_def)
qed

subsection \<open>A manager without subscribers\<close>

lemma notifySubscribers_nobody: "subscribers (mgr w) = [] \<Longrightarrow> notifySubscribers st w = w"
  by (simp add: notifySubscribers_def)

lemma forEachMessage_nobody: "subscribers (mgr w) = [] \<Longrightarrow> forEachMessage objs w = w"
  by (induction objs) (simp_all add: notifySubscribers_nobody)

lemma onMessage_nobody:
  "subscribers (mgr w) = [] \<Longrightarrow> onMessage parse chunk w = Some w1 \<Longrightarrow> w1 = w"
  by (auto simp: onMessage_def extractFromSSE_def notifySubscribers_nobody forEachMessage_nobody
      split: option.splits)

lemma calls_returns [simp]:
  "filter is_call (case a of None \<Rightarrow> [] | Some s \<Rightarrow> [Returns s c]) = []"
  by (simp split: option.split)

lemma calls_settle [simp]: "filter is_call (trace (settle a w)) = filter is_call (trace w)"
  by (simp split: option.split)

lemma calls_finish [simp]: "filter is_call (trace (finish t w)) = filter is_call (trace w)"
  by (simp split: option.split)

lemma calls_connect [simp]: "filter is_call (trace (connect a w)) = filter is_call (trace w)"
  by (simp add: connect_def)

lemma calls_nextRead_nobody:
  "subscribers (mgr w) = [] \<Longrightarrow> filter is_call (trace (nextRead t w)) = filter is_call (trace w)"
  by (simp add: nextRead_def split: option.split)

lemma calls_disconnect_nobody:
  "subscribers (mgr w) = [] \<Longrightarrow> filter is_call (trace (disconnect w)) = filter is_call (trace w)"
  by (simp add: disconnect_trace split: option.split)

lemma calls_fetchSettled_nobody:
  "subscribers (mgr w) = [] \<Longrightarrow>
   filter is_call (trace (fetchSettled t res w)) = filter is_call (trace w)"
  by (cases res) (simp_all add: fetchSettled_def calls_nextRead_nobody)

lemma calls_readSettled_nobody:
  assumes "subscribers (mgr w) = []" and "readSettled parse t r res w = Some w1"
  shows "filter is_call (trace w1) = filter is_call (trace w)"
proof (cases "if r \<in> set (cancelled w) then Done else res")
  case (Chunk payload)
  with assms(2) obtain w0 where m: "onMessage parse payload w = Some w0"
    and w1: "w1 = nextRead t w0"
    by (auto simp: readSettled_def split: option.splits)
  from onMessage_nobody [OF assms(1) m] w1 assms(1) show ?thesis
    by (simp add: calls_nextRead_nobody)
next
  case Done
  with assms show ?thesis by (auto simp: readSettled_def)
next
  case (Failed msg)
  with assms show ?thesis by (auto simp: readSettled_def)
qed

lemma step_nobody:
  assumes "subscribers (mgr w) = []" and "\<not> is_subscribe ev" and "step parse ev w = Some w1"
  shows "subscribers (mgr w1) = [] \<and> filter is_call (trace w1) = filter is_call (trace w)"
proof (cases ev)
  case (Subscribe s)
  with assms(2) show ?thesis by simp
next
  case (Unsubscribe s)
  with assms show ?thesis
    by (auto simp: unsubscribe_def Let_def set_delete_def calls_disconnect_nobody)
next
  case Reconnect
  with assms show ?thesis
    by (auto simp: reconnect_call_def calls_disconnect_nobody)
next
  case (FetchSettles t res)
  with assms show ?thesis
    by (auto simp: fetchSettled_mgr calls_fetchSettled_nobody split: if_splits stage.splits)
next
  case (ReadSettles t res)
  with assms show ?thesis
    by (auto split: if_splits stage.splits dest: readSettled_mgr calls_readSettled_nobody)
qed

lemma run_nobody:
  "subscribers (mgr w) = [] \<Longrightarrow> list_all (\<lambda>ev. \<not> is_subscribe ev) evs \<Longrightarrow>
   run parse evs w = Some w1 \<Longrightarrow>
   subscribers (mgr w1) = [] \<and> filter is_call (trace w1) = filter is_call (trace w)"
proof (induction evs arbitrary: w)
  case Nil
  then show ?case by simp
next
  case (Cons ev evs)
  from Cons.prems(3) obtain w2 where s: "step parse ev w = Some w2"
    and r: "run parse evs w2 = Some w1"
    by (auto split: option.splits)
  from Cons.prems(2) have ev: "\<not> is_subscribe ev" and evs: "list_all (\<lambda>ev. \<not> is_subscribe ev) evs"
    by simp_all
  from step_nobody [OF Cons.prems(1) ev s]
  have w2: "subscribers (mgr w2) = []" "filter is_call (trace w2) = filter is_call (trace w)"
    by simp_all
  from Cons.IH [OF w2(1) evs r] w2(2) show ?case by simp
qed

lemma unsubscribe_last:
  assumes "subscribers (mgr w) = [s]" and "reader (mgr w) = Some r"
  shows "subscribers (mgr (unsubscribe s w)) = []"
    and "trace (unsubscribe s w) = trace w @ [Cancel r]"
    and "cancelled (unsubscribe s w) = r # cancelled w"
    and "tasks (unsubscribe s w) = tasks w"
  using assms
  by (simp_all add: unsubscribe_def Let_def set_delete_def disconnect_def notifySubscribers_def)

text \<open>
  Claim C6: in a world where exactly one subscriber is registered and a reader is held,
  the \<^verbatim>\<open>unsubscribe\<close> closure of that subscriber leaves the set empty and cancels the
  reader (and calls nobody). From then on no subscriber is called: a task that waits on
  the cancelled reader leaves its loop even when the server has sent a chunk, and no
  execution without a new \<^verbatim>\<open>subscribe\<close> adds a call to the effects.
\<close>

theorem last_unsubscribe_cancels_the_reader:
  assumes "subscribers (mgr w) = [s]" and "reader (mgr w) = Some r"
  shows "step parse (Unsubscribe s) w = Some (unsubscribe s w) \<and>
         subscribers (mgr (unsubscribe s w)) = [] \<and>
         trace (unsubscribe s w) = trace w @ [Cancel r] \<and>
         r \<in> set (cancelled (unsubscribe s w)) \<and>
         (\<forall>t chunk. t < length (tasks w) \<and> fst (tasks w ! t) = AwaitRead r \<longrightarrow>
            step parse (ReadSettles t (Chunk chunk)) (unsubscribe s w) =
              Some (finish t (unsubscribe s w)) \<and>
            fst (tasks (finish t (unsubscribe s w)) ! t) = Finished \<and>
            filter is_call (trace (finish t (unsubscribe s w))) = filter is_call (trace w)) \<and>
         (\<forall>evs w1. list_all (\<lambda>ev. \<not> is_subscribe ev) evs \<and>
            run parse evs (unsubscribe s w) = Some w1 \<longrightarrow>
            subscribers (mgr w1) = [] \<and> filter is_call (trace w1) = filter is_call (trace w))"
proof -
  note u = unsubscribe_last [OF assms]
  have a: "\<forall>t chunk. t < length (tasks w) \<and> fst (tasks w ! t) = AwaitRead r \<longrightarrow>
            step parse (ReadSettles t (Chunk chunk)) (unsubscribe s w) =
              Some (finish t (unsubscribe s w)) \<and>
            fst (tasks (finish t (unsubscribe s w)) ! t) = Finished \<and>
            filter is_call (trace (finish t (unsubscribe s w))) = filter is_call (trace w)"
    using u by (simp add: readSettled_def finallyBlock_def notifySubscribers_nobody)
  have b: "\<forall>evs w1. list_all (\<lambda>ev. \<not> is_subscribe ev) evs \<and>
            run parse evs (unsubscribe s w) = Some w1 \<longrightarrow>
            subscribers (mgr w1) = [] \<and> filter is_call (trace w1) = filter is_call (trace w)"
  proof (intro allI impI)
    fix evs w1
    assume h: "list_all (\<lambda>ev. \<not> is_subscribe ev) evs \<and> run parse evs (unsubscribe s w) = Some w1"
    from run_nobody [OF u(1), of evs parse w1] h u(2) show
      "subscribers (mgr w1) = [] \<and> filter is_call (trace w1) = filter is_call (trace w)"
      by simp
  qed
  from u a b show ?thesis by simp
qed

theorem last_unsubscribe_cancels_the_reader_witness:
  "subscribers (mgr world_open) = [1] \<and> reader (mgr world_open) = Some 0 \<and>
   fst (tasks world_open ! 0) = AwaitRead 0 \<and>
   step sample_parse (Unsubscribe 1) world_open = Some (unsubscribe 1 world_open) \<and>
   subscribers (mgr (unsubscribe 1 world_open)) = [] \<and>
   trace (unsubscribe 1 world_open) = [Fetch ''http://x'', Cancel 0] \<and>
   step sample_parse (ReadSettles 0 (Chunk ''data: 1\<newline>'')) (unsubscribe 1 world_open) =
     Some (finish 0 (unsubscribe 1 world_open)) \<and>
   filter is_call (trace (finish 0 (unsubscribe 1 world_open))) = [] \<and>
   run sample_parse
     [ReadSettles 0 (Chunk ''data: 1\<newline>''), Reconnect, FetchSettles 1 Body,
      ReadSettles 1 (Chunk ''data: 1\<newline>'')]
     (unsubscribe 1 world_open) =
   Some \<lparr>mgr = \<lparr>url = ''http://x'', client = stored, subscribers = [], reader = Some 1\<rparr>,
          tasks = [(Finished, Some 1), (AwaitRead 1, None)], cancelled = [0, 0], readers = 2,
          trace = [Fetch ''http://x'', Cancel 0, Returns 1 stored, Cancel 0,
                   Fetch ''http://x'']\<rparr> \<and>
   filter is_call
     [Fetch ''http://x'', Cancel 0, Returns 1 stored, Cancel 0, Fetch ''http://x''] = []"
proof -
  have h1: "subscribers (mgr world_open) = [1]" and h2: "reader (mgr world_open) = Some 0"
    and h3: "0 < length (tasks world_open) \<and> fst (tasks world_open ! 0) = AwaitRead 0"
    and h4: "trace world_open = [Fetch ''http://x'']"
    by (simp_all add: world_open_def)
  have h5: "list_all (\<lambda>ev. \<not> is_subscribe ev)
      [ReadSettles 0 (Chunk ''data: 1\<newline>''), Reconnect, FetchSettles 1 Body,
       ReadSettles 1 (Chunk ''data: 1\<newline>'')]"
    by simp
  have h6: "run sample_parse
     [ReadSettles 0 (Chunk ''data: 1\<newline>''), Reconnect, FetchSettles 1 Body,
      ReadSettles 1 (Chunk ''data: 1\<newline>'')]
     (unsubscribe 1 world_open) =
   Some \<lparr>mgr = \<lparr>url = ''http://x'', client = stored, subscribers = [], reader = Some 1\<rparr>,
          tasks = [(Finished, Some 1), (AwaitRead 1, None)], cancelled = [0, 0], readers = 2,
          trace = [Fetch ''http://x'', Cancel 0, Returns 1 stored, Cancel 0,
                   Fetch ''http://x'']\<rparr>"
    by code_simp
  note T = last_unsubscribe_cancels_the_reader [OF h1 h2, of sample_parse]
  from T h3 have a: "step sample_parse (ReadSettles 0 (Chunk ''data: 1\<newline>''))
        (unsubscribe 1 world_open) = Some (finish 0 (unsubscribe 1 world_open)) \<and>
      filter is_call (trace (finish 0 (unsubscribe 1 world_open))) =
        filter is_call (trace world_open)"
    by blast
  from T h5 h6 have b: "filter is_call
     (trace \<lparr>mgr = \<lparr>url = ''http://x'', client = stored, subscribers = [], reader = Some 1\<rparr>,
          tasks = [(Finished, Some 1), (AwaitRead 1, None)], cancelled = [0, 0], readers = 2,
          trace = [Fetch ''http://x'', Cancel 0, Returns 1 stored, Cancel 0,
                   Fetch ''http://x'']\<rparr>) = filter is_call (trace world_open)"
    by blast
  from T h1 h2 h3 h4 a have "subscribers (mgr world_open) = [1] \<and>
   reader (mgr world_open) = Some 0 \<and>
   fst (tasks world_open ! 0) = AwaitRead 0 \<and>
   step sample_parse (Unsubscribe 1) world_open = Some (unsubscribe 1 world_open) \<and>
   subscribers (mgr (unsubscribe 1 world_open)) = [] \<and>
   trace (unsubscribe 1 world_open) = [Fetch ''http://x'', Cancel 0] \<and>
   step sample_parse (ReadSettles 0 (Chunk ''data: 1\<newline>'')) (unsubscribe 1 world_open) =
     Some (finish 0 (unsubscribe 1 world_open)) \<and>
   filter is_call (trace (finish 0 (unsubscribe 1 world_open))) = []"
    by simp
  moreover from b h4 have "filter is_call
     [Fetch ''http://x'', Cancel 0, Returns 1 stored, Cancel 0, Fetch ''http://x''] = []"
    by simp
  ultimately show ?thesis using h6 by blast
qed

subsection \<open>Leaving the read loop\<close>


text \<open>
  Claim C1 says that the last notification of a read loop keeps the \<^verbatim>\<open>lastMessage\<close> and the
  \<^verbatim>\<open>error\<close> that earlier notifications carried. It does not: after the message \<open>1\<close> the
  stream ends, and the last state has no \<^verbatim>\<open>lastMessage\<close>; after a rejected read the
  state of the \<^verbatim>\<open>catch\<close> block carries the error, and the last state has none.
\<close>

theorem final_broadcast_forgets_earlier_values:
  "run sample_parse
     [Subscribe 1, FetchSettles 0 Body, ReadSettles 0 (Chunk ''data: 1\<newline>''), ReadSettles 0 Done]
     (new_world ''http://x'') =
   Some \<lparr>mgr = \<lparr>url = ''http://x'',
                client = \<lparr>clientId = None, connected = False, lastMessage = None,
                   error = None, reconnect = ReconnectManager\<rparr>,
                subscribers = [1], reader = Some 0\<rparr>,
          tasks = [(Finished, Some 1)], cancelled = [], readers = 1,
          trace =
            [Fetch ''http://x'',
             Call 1 \<lparr>clientId = None, connected = True, lastMessage = Some (JNumber 1),
               error = None, reconnect = ReconnectManager\<rparr>,
             Call 1 \<lparr>clientId = None, connected = False, lastMessage = None,
               error = None, reconnect = ReconnectManager\<rparr>,
             Returns 1 \<lparr>clientId = None, connected = False, lastMessage = None,
               error = None, reconnect = ReconnectManager\<rparr>]\<rparr> \<and>
   run sample_parse
     [Subscribe 1, FetchSettles 0 Body, ReadSettles 0 (Failed ''reset'')]
     (new_world ''http://x'') =
   Some \<lparr>mgr = \<lparr>url = ''http://x'',
                client = \<lparr>clientId = None, connected = False, lastMessage = None,
                   error = None, reconnect = ReconnectManager\<rparr>,
                subscribers = [1], reader = Some 0\<rparr>,
          tasks = [(Finished, Some 1)], cancelled = [], readers = 1,
          trace =
            [Fetch ''http://x'',
             Call 1 \<lparr>clientId = None, connected = False, lastMessage = None,
               error = Some ''reset'', reconnect = ReconnectManager\<rparr>,
             Call 1 \<lparr>clientId = None, connected = False, lastMessage = None,
               error = None, reconnect = ReconnectManager\<rparr>,
             Returns 1 \<lparr>clientId = None, connected = False, lastMessage = None,
               error = None, reconnect = ReconnectManager\<rparr>]\<rparr>"
  by code_simp

lemma readSettled_leaves:
  assumes "res = Done \<or> res = Failed msg \<or> r \<in> set (cancelled w)"
  shows "readSettled parse t r res w =
     Some (finish t (finallyBlock
       (if r \<notin> set (cancelled w) \<and> res = Failed msg then catchBlock msg w else w)))"
  using assms by (auto simp: readSettled_def)

text \<open>
  Claim C1, amended: whenever a task leaves its read loop (the read settles with
  \<^verbatim>\<open>done\<close>, or is rejected, or the reader was cancelled), the handling returns, and its last
  notification calls every registered subscriber, in order, with the stored client record
  with \<^verbatim>\<open>connected\<close> false. After an execution from a new manager that state is the stored
  record itself: \<^verbatim>\<open>connected\<close> false, no \<^verbatim>\<open>lastMessage\<close>, no \<^verbatim>\<open>error\<close>. Only a rejected
  read puts a notification before it, the one with the error.
\<close>

theorem final_broadcast_on_loop_exit:
  assumes "run parse evs (new_world u) = Some w"
    and "t < length (tasks w)" and "fst (tasks w ! t) = AwaitRead r"
    and "res = Done \<or> res = Failed msg \<or> r \<in> set (cancelled w)"
  shows "\<exists>w1. step parse (ReadSettles t res) w = Some w1 \<and>
           fst (tasks w1 ! t) = Finished \<and>
           trace w1 = trace w
             @ (if r \<notin> set (cancelled w) \<and> res = Failed msg
                then map (\<lambda>s. Call s ((client (mgr w))\<lparr>error := Some msg, connected := False\<rparr>))
                       (subscribers (mgr w))
                else [])
             @ map (\<lambda>s. Call s ((client (mgr w))\<lparr>connected := False\<rparr>)) (subscribers (mgr w))
             @ (case snd (tasks w ! t) of None \<Rightarrow> [] | Some s \<Rightarrow> [Returns s (client (mgr w))]) \<and>
           (client (mgr w))\<lparr>connected := False\<rparr> = client (mgr w) \<and>
           connected ((client (mgr w))\<lparr>connected := False\<rparr>) = False \<and>
           lastMessage ((client (mgr w))\<lparr>connected := False\<rparr>) = None \<and>
           error ((client (mgr w))\<lparr>connected := False\<rparr>) = None"
proof -
  have c: "client (mgr w) = defaultSSEClient\<lparr>reconnect := ReconnectManager\<rparr>"
    using run_client [OF assms(1)] by (simp add: new_world_def constructor_def)
  have s: "step parse (ReadSettles t res) w =
     Some (finish t (finallyBlock
       (if r \<notin> set (cancelled w) \<and> res = Failed msg then catchBlock msg w else w)))"
    using assms(2,3) readSettled_leaves [OF assms(4)] by simp
  show ?thesis
    unfolding s using assms(2) by (simp add: c defaultSSEClient_def split: option.split)
qed


theorem final_broadcast_on_loop_exit_witness:
  "run sample_parse [Subscribe 1, FetchSettles 0 Body] (new_world ''http://x'') = Some world_open \<and>
   fst (tasks world_open ! 0) = AwaitRead 0 \<and>
   (\<exists>w1. step sample_parse (ReadSettles 0 (Failed ''reset'')) world_open = Some w1 \<and>
      fst (tasks w1 ! 0) = Finished \<and>
      trace w1 =
        [Fetch ''http://x'', Call 1 (stored\<lparr>error := Some ''reset''\<rparr>), Call 1 stored,
         Returns 1 stored])"
proof -
  have h2: "0 < length (tasks world_open)" and h3: "fst (tasks world_open ! 0) = AwaitRead 0"
    by (simp_all add: world_open_def)
  have h4: "Failed ''reset'' = Done \<or> Failed ''reset'' = Failed ''reset'' \<or>
      0 \<in> set (cancelled world_open)"
    by simp
  have "\<exists>w1. step sample_parse (ReadSettles 0 (Failed ''reset'')) world_open = Some w1 \<and>
      fst (tasks w1 ! 0) = Finished \<and>
      trace w1 =
        [Fetch ''http://x'', Call 1 (stored\<lparr>error := Some ''reset''\<rparr>), Call 1 stored,
         Returns 1 stored]"
    using final_broadcast_on_loop_exit [OF run_world_open h2 h3 h4]
    by (simp add: world_open_def stored_def)
  with run_world_open h3 show ?thesis by blast
qed

subsection \<open>Reconnecting\<close>

text \<open>
  Claim C4 says that \<^verbatim>\<open>reconnect()\<close> always notifies of a disconnect first and then starts
  connecting. With no reader it notifies nobody: after a rejected request the only effect
  of \<^verbatim>\<open>reconnect()\<close> is the new request, and for a manager whose URL is a single
  character it has no effect at all.
\<close>

theorem reconnect_without_reader_broadcasts_nothing:
  "run sample_parse [Subscribe 1, FetchSettles 0 (Rejected ''offline''), Reconnect]
     (new_world ''http://x'') =
   Some \<lparr>mgr = \<lparr>url = ''http://x'',
                client = \<lparr>clientId = None, connected = False, lastMessage = None,
                   error = None, reconnect = ReconnectManager\<rparr>,
                subscribers = [1], reader = None\<rparr>,
          tasks = [(Finished, Some 1), (AwaitFetch, None)], cancelled = [], readers = 0,
          trace =
            [Fetch ''http://x'',
             Call 1 \<lparr>clientId = None, connected = False, lastMessage = None,
               error = Some ''offline'', reconnect = ReconnectManager\<rparr>,
             Call 1 \<lparr>clientId = None, connected = False, lastMessage = None,
               error = None, reconnect = ReconnectManager\<rparr>,
             Returns 1 \<lparr>clientId = None, connected = False, lastMessage = None,
               error = None, reconnect = ReconnectManager\<rparr>,
             Fetch ''http://x'']\<rparr> \<and>
   run sample_parse [Subscribe 1, Reconnect] (new_world ''x'') =
   Some \<lparr>mgr = \<lparr>url = ''x'',
                client = \<lparr>clientId = None, connected = False, lastMessage = None,
                   error = None, reconnect = ReconnectManager\<rparr>,
                subscribers = [1], reader = None\<rparr>,
          tasks = [], cancelled = [], readers = 0,
          trace =
            [Returns 1 \<lparr>clientId = None, connected = False, lastMessage = None,
               error = None, reconnect = ReconnectManager\<rparr>]\<rparr>"
  by code_simp

lemma connect_trace:
  "trace (connect a w) = trace w @
     (if url (mgr w) = [] \<or> length (url (mgr w)) \<le> 1
      then (case a of None \<Rightarrow> [] | Some s \<Rightarrow> [Returns s (client (mgr w))])
      else [Fetch (url (mgr w))])"
  by (simp add: connect_def)

lemma connect_tasks:
  "tasks (connect a w) = tasks w @
     (if url (mgr w) = [] \<or> length (url (mgr w)) \<le> 1 then [] else [(AwaitFetch, a)])"
  by (simp add: connect_def)

text \<open>
  Claim C4, amended: \<^verbatim>\<open>reconnect()\<close> runs \<^verbatim>\<open>_disconnect\<close> and then \<^verbatim>\<open>_connect\<close>, in every
  world. \<^verbatim>\<open>_disconnect\<close> cancels the reader and calls every subscriber with \<^verbatim>\<open>connected\<close>
  false when a reader is held, and does nothing otherwise; \<^verbatim>\<open>_connect\<close> then issues a
  request and starts a task when the URL is longer than one character, and does nothing
  otherwise.
\<close>

theorem reconnect_disconnects_then_connects:
  "step parse Reconnect w = Some (connect None (disconnect w)) \<and>
   trace (disconnect w) = trace w @
     (case reader (mgr w) of
        None \<Rightarrow> []
      | Some r \<Rightarrow> Cancel r #
          map (\<lambda>s. Call s ((client (mgr w))\<lparr>connected := False\<rparr>)) (subscribers (mgr w))) \<and>
   cancelled (disconnect w) =
     (case reader (mgr w) of None \<Rightarrow> cancelled w | Some r \<Rightarrow> r # cancelled w) \<and>
   trace (connect None (disconnect w)) = trace (disconnect w) @
     (if url (mgr w) = [] \<or> length (url (mgr w)) \<le> 1 then [] else [Fetch (url (mgr w))]) \<and>
   tasks (connect None (disconnect w)) = tasks w @
     (if url (mgr w) = [] \<or> length (url (mgr w)) \<le> 1 then [] else [(AwaitFetch, None)])"
  by (simp add: reconnect_call_def disconnect_trace connect_trace connect_tasks)
    (simp add: disconnect_def split: option.split)

theorem reconnect_disconnects_then_connects_witness:
  "step sample_parse Reconnect world_open = Some (connect None (disconnect world_open)) \<and>
   trace (disconnect world_open) = [Fetch ''http://x'', Cancel 0, Call 1 stored] \<and>
   trace (connect None (disconnect world_open)) =
     [Fetch ''http://x'', Cancel 0, Call 1 stored, Fetch ''http://x''] \<and>
   tasks (connect None (disconnect world_open)) = [(AwaitRead 0, Some 1), (AwaitFetch, None)]"
  using reconnect_disconnects_then_connects [of sample_parse world_open]
  by (simp add: world_open_def stored_def)

subsection \<open>Connecting\<close>

text \<open>
  Claim C8 says that for every URL longer than one character \<^verbatim>\<open>connect()\<close> opens the
  request and enters the read loop. The request is issued, but the loop is entered only
  when the response has a body: here the response has none, the task returns after the
  two notifications of \<^verbatim>\<open>catch\<close> and \<^verbatim>\<open>finally\<close>, no reader is stored and nothing is read.
\<close>

theorem connect_without_body_never_reads:
  "run sample_parse [Subscribe 1, FetchSettles 0 NoBody] (new_world ''http://x'') =
   Some \<lparr>mgr = \<lparr>url = ''http://x'',
                client = \<lparr>clientId = None, connected = False, lastMessage = None,
                   error = None, reconnect = ReconnectManager\<rparr>,
                subscribers = [1], reader = None\<rparr>,
          tasks = [(Finished, Some 1)], cancelled = [], readers = 0,
          trace =
            [Fetch ''http://x'',
             Call 1 \<lparr>clientId = None, connected = False, lastMessage = None,
               error = Some ''ReadableStream not supported in this environment'',
               reconnect = ReconnectManager\<rparr>,
             Call 1 \<lparr>clientId = None, connected = False, lastMessage = None,
               error = None, reconnect = ReconnectManager\<rparr>,
             Returns 1 \<lparr>clientId = None, connected = False, lastMessage = None,
               error = None, reconnect = ReconnectManager\<rparr>]\<rparr>"
  by code_simp

lemma connect_short: "length (url (mgr w)) \<le> 1 \<Longrightarrow> connect a w = settle a w"
  by (simp add: connect_def)

lemma connect_long:
  "1 < length (url (mgr w)) \<Longrightarrow>
   connect a w = w\<lparr>tasks := tasks w @ [(AwaitFetch, a)], trace := trace w @ [Fetch (url (mgr w))]\<rparr>"
  by (auto simp: connect_def)

lemma step_fetch_new_task:
  assumes "1 < length (url (mgr w))"
  shows "step parse (FetchSettles (length (tasks w)) res) (connect a w) =
     Some (fetchSettled (length (tasks w)) res (connect a w))"
  using assms by (simp add: connect_long)

lemma fetchSettled_body:
  assumes "1 < length (url (mgr w))"
  shows "reader (mgr (fetchSettled (length (tasks w)) Body (connect a w))) = Some (readers w)"
    and "tasks (fetchSettled (length (tasks w)) Body (connect a w)) =
           tasks w @ [(AwaitRead (readers w), a)]"
    and "trace (fetchSettled (length (tasks w)) Body (connect a w)) =
           trace w @ [Fetch (url (mgr w))]"
  using assms by (simp_all add: connect_long fetchSettled_def nextRead_def)

lemma fetchSettled_failure:
  assumes "1 < length (url (mgr w))"
    and "res = Rejected msg \<or>
         (res = NoBody \<and> msg = ''ReadableStream not supported in this environment'')"
  shows "reader (mgr (fetchSettled (length (tasks w)) res (connect a w))) = reader (mgr w)"
    and "tasks (fetchSettled (length (tasks w)) res (connect a w)) = tasks w @ [(Finished, a)]"
    and "trace (fetchSettled (length (tasks w)) res (connect a w)) =
           trace w @ [Fetch (url (mgr w))]
             @ map (\<lambda>s. Call s ((client (mgr w))\<lparr>error := Some msg, connected := False\<rparr>))
                 (subscribers (mgr w))
             @ map (\<lambda>s. Call s ((client (mgr w))\<lparr>connected := False\<rparr>)) (subscribers (mgr w))
             @ (case a of None \<Rightarrow> [] | Some s \<Rightarrow> [Returns s (client (mgr w))])"
  using assms by (auto simp: connect_long fetchSettled_def split: option.split)

text \<open>
  Claim C8, amended: when the URL is empty or a single character, \<^verbatim>\<open>_connect\<close> changes
  nothing (no request, no reader, no task, no call of a subscriber; a \<^verbatim>\<open>subscribe\<close> that
  awaited it returns). When the URL is longer, \<^verbatim>\<open>_connect\<close> issues the request for that URL
  and waits for it. When the response arrives with a body, the new reader is stored and
  the task waits for its first read; when the request is rejected or the response has no
  body, the reader field is left as it was, all subscribers are called with the error and
  \<^verbatim>\<open>connected\<close> false, then with \<^verbatim>\<open>connected\<close> false alone, and the task has returned.
\<close>

theorem connect_by_url_length:
  "(length (url (mgr w)) \<le> 1 \<longrightarrow>
      connect None w = w \<and>
      connect (Some s) w = w\<lparr>trace := trace w @ [Returns s (client (mgr w))]\<rparr>) \<and>
   (1 < length (url (mgr w)) \<longrightarrow>
      connect a w =
        w\<lparr>tasks := tasks w @ [(AwaitFetch, a)], trace := trace w @ [Fetch (url (mgr w))]\<rparr> \<and>
      (\<forall>res. step parse (FetchSettles (length (tasks w)) res) (connect a w) =
         Some (fetchSettled (length (tasks w)) res (connect a w))) \<and>
      reader (mgr (fetchSettled (length (tasks w)) Body (connect a w))) = Some (readers w) \<and>
      tasks (fetchSettled (length (tasks w)) Body (connect a w)) =
        tasks w @ [(AwaitRead (readers w), a)] \<and>
      trace (fetchSettled (length (tasks w)) Body (connect a w)) =
        trace w @ [Fetch (url (mgr w))] \<and>
      (\<forall>res msg. res = Rejected msg \<or>
           (res = NoBody \<and> msg = ''ReadableStream not supported in this environment'') \<longrightarrow>
         reader (mgr (fetchSettled (length (tasks w)) res (connect a w))) = reader (mgr w) \<and>
         tasks (fetchSettled (length (tasks w)) res (connect a w)) = tasks w @ [(Finished, a)] \<and>
         trace (fetchSettled (length (tasks w)) res (connect a w)) =
           trace w @ [Fetch (url (mgr w))]
             @ map (\<lambda>s. Call s ((client (mgr w))\<lparr>error := Some msg, connected := False\<rparr>))
                 (subscribers (mgr w))
             @ map (\<lambda>s. Call s ((client (mgr w))\<lparr>connected := False\<rparr>)) (subscribers (mgr w))
             @ (case a of None \<Rightarrow> [] | Some s \<Rightarrow> [Returns s (client (mgr w))])))"
proof (intro conjI impI)
  assume "length (url (mgr w)) \<le> 1"
  then show "connect None w = w"
    and "connect (Some s) w = w\<lparr>trace := trace w @ [Returns s (client (mgr w))]\<rparr>"
    by (simp_all add: connect_short settle_def)
next
  assume l: "1 < length (url (mgr w))"
  show "connect a w =
        w\<lparr>tasks := tasks w @ [(AwaitFetch, a)], trace := trace w @ [Fetch (url (mgr w))]\<rparr>"
    by (rule connect_long [OF l])
  show "\<forall>res. step parse (FetchSettles (length (tasks w)) res) (connect a w) =
         Some (fetchSettled (length (tasks w)) res (connect a w))"
    by (intro allI) (rule step_fetch_new_task [OF l])
  show "reader (mgr (fetchSettled (length (tasks w)) Body (connect a w))) = Some (readers w)"
    by (rule fetchSettled_body(1) [OF l])
  show "tasks (fetchSettled (length (tasks w)) Body (connect a w)) =
        tasks w @ [(AwaitRead (readers w), a)]"
    by (rule fetchSettled_body(2) [OF l])
  show "trace (fetchSettled (length (tasks w)) Body (connect a w)) =
        trace w @ [Fetch (url (mgr w))]"
    by (rule fetchSettled_body(3) [OF l])
  show "\<forall>res msg. res = Rejected msg \<or>
           (res = NoBody \<and> msg = ''ReadableStream not supported in this environment'') \<longrightarrow>
         reader (mgr (fetchSettled (length (tasks w)) res (connect a w))) = reader (mgr w) \<and>
         tasks (fetchSettled (length (tasks w)) res (connect a w)) = tasks w @ [(Finished, a)] \<and>
         trace (fetchSettled (length (tasks w)) res (connect a w)) =
           trace w @ [Fetch (url (mgr w))]
             @ map (\<lambda>s. Call s ((client (mgr w))\<lparr>error := Some msg, connected := False\<rparr>))
                 (subscribers (mgr w))
             @ map (\<lambda>s. Call s ((client (mgr w))\<lparr>connected := False\<rparr>)) (subscribers (mgr w))
             @ (case a of None \<Rightarrow> [] | Some s \<Rightarrow> [Returns s (client (mgr w))])"
  proof (intro allI impI)
    fix res msg
    assume f: "res = Rejected msg \<or>
           (res = NoBody \<and> msg = ''ReadableStream not supported in this environment'')"
    from fetchSettled_failure [OF l f, of a]
    show "reader (mgr (fetchSettled (length (tasks w)) res (connect a w))) = reader (mgr w) \<and>
         tasks (fetchSettled (length (tasks w)) res (connect a w)) = tasks w @ [(Finished, a)] \<and>
         trace (fetchSettled (length (tasks w)) res (connect a w)) =
           trace w @ [Fetch (url (mgr w))]
             @ map (\<lambda>s. Call s ((client (mgr w))\<lparr>error := Some msg, connected := False\<rparr>))
                 (subscribers (mgr w))
             @ map (\<lambda>s. Call s ((client (mgr w))\<lparr>connected := False\<rparr>)) (subscribers (mgr w))
             @ (case a of None \<Rightarrow> [] | Some s \<Rightarrow> [Returns s (client (mgr w))])"
      by (intro conjI)
  qed
qed


theorem connect_by_url_length_witness:
  "length (url (mgr (new_world ''x'' :: json world))) \<le> 1 \<and>
   connect None (new_world ''x'' :: json world) = new_world ''x'' \<and>
   1 < length (url (mgr (new_world ''http://x'' :: json world))) \<and>
   connect (Some 1) (new_world ''http://x'' :: json world) =
     (new_world ''http://x'')\<lparr>tasks := [(AwaitFetch, Some 1)], trace := [Fetch ''http://x'']\<rparr> \<and>
   step sample_parse (FetchSettles 0 Body) (connect (Some 1) (new_world ''http://x'')) =
     Some (fetchSettled 0 Body (connect (Some 1) (new_world ''http://x''))) \<and>
   reader (mgr (fetchSettled 0 Body (connect (Some 1) (new_world ''http://x'' :: json world)))) =
     Some 0 \<and>
   tasks (fetchSettled 0 Body (connect (Some 1) (new_world ''http://x'' :: json world))) =
     [(AwaitRead 0, Some 1)] \<and>
   reader (mgr (fetchSettled 0 (Rejected ''offline'')
     (connect (Some 1) (new_world ''http://x'' :: json world)))) = None \<and>
   tasks (fetchSettled 0 (Rejected ''offline'')
     (connect (Some 1) (new_world ''http://x'' :: json world))) = [(Finished, Some 1)]"
proof -
  have short: "length (url (mgr (new_world ''x'' :: json world))) \<le> 1"
    and long: "1 < length (url (mgr (new_world ''http://x'' :: json world)))"
    and start: "tasks (new_world ''http://x'' :: json world) = []"
      "trace (new_world ''http://x'' :: json world) = []"
      "readers (new_world ''http://x'' :: json world) = 0"
      "reader (mgr (new_world ''http://x'' :: json world)) = None"
      "url (mgr (new_world ''http://x'' :: json world)) = ''http://x''"
    by (simp_all add: new_world_def constructor_def)
  from connect_by_url_length [where w = "new_world ''x'' :: json world" and s = 1
      and parse = sample_parse and a = None] short
  have a: "connect None (new_world ''x'' :: json world) = new_world ''x''"
    by blast
  note L = connect_by_url_length [where w = "new_world ''http://x'' :: json world" and s = 1
      and parse = sample_parse and a = "Some 1", THEN conjunct2, THEN mp, OF long]
  from L have b: "connect (Some 1) (new_world ''http://x'' :: json world) =
       (new_world ''http://x'')\<lparr>tasks := [(AwaitFetch, Some 1)], trace := [Fetch ''http://x'']\<rparr>"
    by (simp add: start)
  from L [THEN conjunct2, THEN conjunct1, THEN spec, of Body]
  have c: "step sample_parse (FetchSettles 0 Body) (connect (Some 1) (new_world ''http://x'')) =
       Some (fetchSettled 0 Body (connect (Some 1) (new_world ''http://x'')))"
    by (simp add: start)
  from L [THEN conjunct2, THEN conjunct2, THEN conjunct1]
  have d: "reader (mgr (fetchSettled 0 Body
       (connect (Some 1) (new_world ''http://x'' :: json world)))) = Some 0"
    by (simp add: start)
  from L [THEN conjunct2, THEN conjunct2, THEN conjunct2, THEN conjunct1]
  have e: "tasks (fetchSettled 0 Body (connect (Some 1) (new_world ''http://x'' :: json world))) =
       [(AwaitRead 0, Some 1)]"
    by (simp add: start)
  have r: "Rejected ''offline'' = Rejected ''offline'' \<or>
      (Rejected ''offline'' = NoBody \<and>
       ''offline'' = ''ReadableStream not supported in this environment'')"
    by simp
  note F = L [THEN conjunct2, THEN conjunct2, THEN conjunct2, THEN conjunct2, THEN conjunct2,
      THEN spec, THEN spec, THEN mp, OF r]
  from F have f: "reader (mgr (fetchSettled 0 (Rejected ''offline'')
       (connect (Some 1) (new_world ''http://x'' :: json world)))) = None"
    by (simp add: start)
  from F have g: "tasks (fetchSettled 0 (Rejected ''offline'')
       (connect (Some 1) (new_world ''http://x'' :: json world))) = [(Finished, Some 1)]"
    by (simp add: start)
  from short a long b c d e f g show ?thesis by (intro conjI)
qed

subsection \<open>The holder\<close>

text \<open>
  Claim C3 says that after \<^verbatim>\<open>destroyStatefulSubscribableSSE()\<close> the next call of
  \<^verbatim>\<open>useStatefulSubscribableSSE\<close> builds a new object. With the empty string or \<^verbatim>\<open>undefined\<close>
  as its argument it builds nothing and returns \<^verbatim>\<open>undefined\<close>.
\<close>

theorem acquire_without_url_builds_nothing:
  "useStatefulSubscribableSSE (Some ''http://a'') (empty_holder :: json holder) =
     (Some (0, constructor ''http://a''),
      \<lparr>statefulSubscribable = Some (0, constructor ''http://a''), built = 1, destroyed = []\<rparr>) \<and>
   destroyStatefulSubscribableSSE
     (snd (useStatefulSubscribableSSE (Some ''http://a'') (empty_holder :: json holder))) =
     \<lparr>statefulSubscribable = None, built = 1, destroyed = [0]\<rparr> \<and>
   useStatefulSubscribableSSE (Some '''')
     (\<lparr>statefulSubscribable = None, built = 1, destroyed = [0]\<rparr> :: json holder) =
     (None, \<lparr>statefulSubscribable = None, built = 1, destroyed = [0]\<rparr>) \<and>
   useStatefulSubscribableSSE None
     (\<lparr>statefulSubscribable = None, built = 1, destroyed = [0]\<rparr> :: json holder) =
     (None, \<lparr>statefulSubscribable = None, built = 1, destroyed = [0]\<rparr>)"
  by (simp add: useStatefulSubscribableSSE_def destroyStatefulSubscribableSSE_def
      empty_holder_def truthy_def)

lemma acquire_held:
  "statefulSubscribable h \<noteq> None \<Longrightarrow>
   useStatefulSubscribableSSE u h = (statefulSubscribable h, h)"
  by (simp add: useStatefulSubscribableSSE_def)

lemma acquire_first:
  "statefulSubscribable h = None \<Longrightarrow> truthy u \<Longrightarrow>
   useStatefulSubscribableSSE u h =
     (Some (built h, constructor (the u)),
      h\<lparr>statefulSubscribable := Some (built h, constructor (the u)), built := Suc (built h)\<rparr>)"
  by (simp add: useStatefulSubscribableSSE_def)

lemma acquire_nothing:
  "statefulSubscribable h = None \<Longrightarrow> \<not> truthy u \<Longrightarrow> useStatefulSubscribableSSE u h = (None, h)"
  by (simp add: useStatefulSubscribableSSE_def)

text \<open>
  Claim C3, amended: on an empty holder, \<^verbatim>\<open>useStatefulSubscribableSSE(urlA)\<close> with a non-empty
  \<^verbatim>\<open>urlA\<close> builds an object around a manager for \<^verbatim>\<open>urlA\<close>, and a second call returns that
  same object, whatever its argument is, and leaves the holder as it is. After
  \<^verbatim>\<open>destroyStatefulSubscribableSSE()\<close> the holder is empty and the object was destroyed; the
  next call builds a new object (another number, a manager for the new URL) when its
  argument is a non-empty string, and returns \<^verbatim>\<open>undefined\<close> and builds nothing when its
  argument is empty or \<^verbatim>\<open>undefined\<close>.
\<close>

theorem holder_keeps_first_instance:
  assumes "statefulSubscribable (h :: 'j holder) = None" and "urlA \<noteq> []"
  shows "fst (useStatefulSubscribableSSE (Some urlA) h) = Some (built h, constructor urlA) \<and>
         url (constructor urlA :: 'j RemoteSSESubscribable) = urlA \<and>
         useStatefulSubscribableSSE urlB (snd (useStatefulSubscribableSSE (Some urlA) h)) =
           (Some (built h, constructor urlA), snd (useStatefulSubscribableSSE (Some urlA) h)) \<and>
         statefulSubscribable
           (destroyStatefulSubscribableSSE (snd (useStatefulSubscribableSSE (Some urlA) h))) = None \<and>
         destroyed
           (destroyStatefulSubscribableSSE (snd (useStatefulSubscribableSSE (Some urlA) h))) =
           destroyed h @ [built h] \<and>
         (truthy urlC \<longrightarrow>
            fst (useStatefulSubscribableSSE urlC
              (destroyStatefulSubscribableSSE (snd (useStatefulSubscribableSSE (Some urlA) h)))) =
            Some (Suc (built h), constructor (the urlC))) \<and>
         (\<not> truthy urlC \<longrightarrow>
            useStatefulSubscribableSSE urlC
              (destroyStatefulSubscribableSSE (snd (useStatefulSubscribableSSE (Some urlA) h))) =
            (None, destroyStatefulSubscribableSSE (snd (useStatefulSubscribableSSE (Some urlA) h))))"
proof -
  from assms(2) have t: "truthy (Some urlA)" by (simp add: truthy_def)
  note first = acquire_first [OF assms(1) t]
  have held: "statefulSubscribable (snd (useStatefulSubscribableSSE (Some urlA) h)) =
      Some (built h, constructor urlA)"
    by (simp add: first)
  have again: "useStatefulSubscribableSSE urlB (snd (useStatefulSubscribableSSE (Some urlA) h)) =
      (Some (built h, constructor urlA), snd (useStatefulSubscribableSSE (Some urlA) h))"
    using acquire_held [of "snd (useStatefulSubscribableSSE (Some urlA) h)" urlB] held by simp
  have d: "destroyStatefulSubscribableSSE (snd (useStatefulSubscribableSSE (Some urlA) h)) =
      h\<lparr>statefulSubscribable := None, built := Suc (built h),
        destroyed := destroyed h @ [built h]\<rparr>"
    by (simp add: first destroyStatefulSubscribableSSE_def)
  show ?thesis
    unfolding again d
    by (simp add: first constructor_def acquire_first acquire_nothing)
qed

theorem holder_keeps_first_instance_witness:
  "fst (useStatefulSubscribableSSE (Some ''http://a'') (empty_holder :: json holder)) =
     Some (0, constructor ''http://a'') \<and>
   useStatefulSubscribableSSE (Some ''http://b'')
       (snd (useStatefulSubscribableSSE (Some ''http://a'') (empty_holder :: json holder))) =
     (Some (0, constructor ''http://a''),
      snd (useStatefulSubscribableSSE (Some ''http://a'') empty_holder)) \<and>
   fst (useStatefulSubscribableSSE (Some ''http://b'')
       (destroyStatefulSubscribableSSE
         (snd (useStatefulSubscribableSSE (Some ''http://a'') (empty_holder :: json holder))))) =
     Some (1, constructor ''http://b'') \<and>
   fst (useStatefulSubscribableSSE None
       (destroyStatefulSubscribableSSE
         (snd (useStatefulSubscribableSSE (Some ''http://a'') (empty_holder :: json holder))))) =
     None"
proof -
  have h1: "statefulSubscribable (empty_holder :: json holder) = None"
    and b0: "built (empty_holder :: json holder) = 0"
    by (simp_all add: empty_holder_def)
  have h2: "''http://a'' \<noteq> []" by simp
  have tb: "truthy (Some ''http://b'')" and tn: "\<not> truthy None"
    by (simp_all add: truthy_def)
  note T = holder_keeps_first_instance [OF h1 h2]
  from T [of "Some ''http://b''" "Some ''http://b''"] tb T [of None None] tn
  show ?thesis by (simp add: b0)
qed

end
